theory Spec2Isabelle
  imports Main "HOL-Library.Word"
begin

unbundle bit_operations_syntax

section \<open>JavaScript values used by rrdFile.js\<close>

text \<open>
  rrdFile.js computes with JavaScript numbers, which are binary64 doubles. Every number
  the module computes is an integer, so a number is modelled by an \<open>int\<close>, and the sum or
  product of two numbers is the exact result rounded to the nearest double, ties to the
  even significand (\<open>js_add\<close>, \<open>js_mul\<close>). Up to \<open>2 ^ 53\<close> in magnitude the rounding
  changes nothing. A 32-bit unsigned read of the byte source is a \<open>32 word\<close>, turned
  into a number with \<open>uint\<close>, so every count and pointer of a file is below \<open>2 ^ 32\<close>.

  The rounding is written out wherever counts below \<open>2 ^ 32\<close> can take a result beyond
  \<open>2 ^ 53\<close>: the start of the archive pointers and the header size, the pointer offset of
  one archive, the prefix sums of the row counts, the byte offsets of the samples and
  the seconds per row. The other sums and products stay below
  \<open>2 ^ 53\<close> for every file (see \<open>built_header_small\<close> and \<open>built_view_small\<close>) and are
  written with \<open>+\<close> and \<open>*\<close>. Overflow to Infinity is beyond reach of these values and
  is not modelled.
\<close>

text \<open>The number of binary digits of a natural number.\<close>

fun bit_length :: "nat \<Rightarrow> nat" where
  "bit_length n = (if n = 0 then 0 else Suc (bit_length (n div 2)))"

declare bit_length.simps [simp del]

text \<open>
  Rounding to 53 significant binary digits: \<open>u\<close> is the weight of the last digit kept,
  \<open>q\<close> the digits kept and \<open>r\<close> the part cut off.
\<close>

definition round53 :: "nat \<Rightarrow> nat" where
  "round53 m =
     (let e = bit_length m
      in if e \<le> 53 then m
         else
           let u = 2 ^ (e - 53); q = m div u; r = m mod u
           in if 2 * r > u \<or> (2 * r = u \<and> odd q) then (q + 1) * u else q * u)"

definition to_double :: "int \<Rightarrow> int" where
  "to_double x = (if x < 0 then - int (round53 (nat (- x))) else int (round53 (nat x)))"

definition js_add :: "int \<Rightarrow> int \<Rightarrow> int" where
  "js_add a b = to_double (a + b)"

definition js_mul :: "int \<Rightarrow> int \<Rightarrow> int" where
  "js_mul a b = to_double (a * b)"

text \<open>
  A double read from the byte source is modelled by its IEEE-754 bit pattern. \<open>js_eq\<close>
  is JavaScript's \<open>==\<close> on two such numbers: NaN equals nothing, the two zeros equal each
  other, and any other two doubles are equal exactly when their bit patterns are.
\<close>

type_synonym double = "64 word"

definition is_nan :: "double \<Rightarrow> bool" where
  "is_nan w = ((w AND 0x7FF0000000000000) = 0x7FF0000000000000 \<and> (w AND 0x000FFFFFFFFFFFFF) \<noteq> 0)"

definition is_zero :: "double \<Rightarrow> bool" where
  "is_zero w = ((w AND 0x7FFFFFFFFFFFFFFF) = 0)"

definition js_eq :: "double \<Rightarrow> double \<Rightarrow> bool" where
  "js_eq a b = (\<not> is_nan a \<and> \<not> is_nan b \<and> (a = b \<or> (is_zero a \<and> is_zero b)))"

text \<open>The literal \<open>8.642135e+130\<close>: the double with bit pattern \<open>0x5B1F2B43C7C0252F\<close>.\<close>

definition sentinel :: double where
  "sentinel = 0x5B1F2B43C7C0252F"

text \<open>
  String concatenation with a number (\<open>"..." + idx\<close>) prints the number with the fewest
  significant digits that still denote it: all digits of an integer below \<open>2 ^ 53\<close>; for
  a larger one the shortest decimal \<open>v\<close> that rounds to it (\<open>shortest\<close> tries one
  significant digit, then two, and so on, taking the nearer of the two candidates
  around the number), printed with its zeros when it is below \<open>10 ^ 21\<close> and in exponent
  form from there on. A negative number has a leading minus sign. An integer beyond
  \<open>2 ^ 53\<close> that is no double cannot reach the module; for it the search ends at the
  integer's own digits.
\<close>

definition digit :: "nat \<Rightarrow> char" where
  "digit d = ''0123456789'' ! d"

function nat_str :: "nat \<Rightarrow> string" where
  "nat_str n = (if n < 10 then [digit n] else nat_str (n div 10) @ [digit (n mod 10)])"
  by pat_completeness auto
termination
  by (relation "measure (\<lambda>n. n)") auto

fun shortest :: "nat \<Rightarrow> nat \<Rightarrow> nat" where
  "shortest m e =
     (if e = 0 then m
      else
        let p = 10 ^ e; lo = (m div p) * p; hi = lo + p;
            lo_ok = (round53 lo = m); hi_ok = (round53 hi = m)
        in if lo_ok \<and> hi_ok then
             (if m - lo < hi - m then lo
              else if hi - m < m - lo then hi
              else if even (lo div p) then lo else hi)
           else if lo_ok then lo
           else if hi_ok then hi
           else shortest m (e - 1))"

declare shortest.simps [simp del]

function strip_zeros :: "nat \<Rightarrow> nat" where
  "strip_zeros v = (if v \<noteq> 0 \<and> v mod 10 = 0 then strip_zeros (v div 10) else v)"
  by pat_completeness auto
termination
  by (relation "measure (\<lambda>v. v)") auto

definition exp_str :: "nat \<Rightarrow> string" where
  "exp_str v =
     (let s = nat_str (strip_zeros v)
      in (if length s = 1 then s else hd s # CHR ''.'' # tl s)
         @ ''e+'' @ nat_str (length (nat_str v) - 1))"

definition num_str :: "nat \<Rightarrow> string" where
  "num_str m =
     (if m < 2 ^ 53 then nat_str m
      else
        let v = shortest m (length (nat_str m) - 1)
        in if v < 10 ^ 21 then nat_str v else exp_str v)"

definition ToString :: "int \<Rightarrow> string" where
  "ToString i = (if i < 0 then CHR ''-'' # num_str (nat (- i)) else num_str (nat i))"

section \<open>The byte source and the exceptions\<close>

text \<open>
  The object handed to the module (a BinaryFile from binaryXHR.js, which is not part of
  rrdFile.js) is taken as a parameter: a record of its read methods. Only the methods
  rrdFile.js calls are listed.
\<close>

record bytesource =
  getLongAt :: "int \<Rightarrow> 32 word"
  getDoubleAt :: "int \<Rightarrow> double"
  getFastDoubleAt :: "int \<Rightarrow> double"
  getCStringAt :: "int \<Rightarrow> int \<Rightarrow> string"

text \<open>
  \<open>InvalidRRD msg\<close> is the module's own exception class, \<open>RangeError msg\<close>
  JavaScript's. \<open>UndefinedRowCnt\<close> is no JavaScript exception: it marks an archive
  view asked for while the row-count arrays of the header hold no entry for the index,
  which \<open>RRDFile\<close> rules out by running \<open>load_row_cnts\<close> in its constructor.
\<close>

datatype error = InvalidRRD string | RangeError string | UndefinedRowCnt

section \<open>RRDDS: one data source definition\<close>

record rrdds =
  ds_rrd_data :: bytesource
  ds_rrd_data_idx :: int

definition RRDDS :: "bytesource \<Rightarrow> int \<Rightarrow> rrdds" where
  "RRDDS rrd_data rrd_data_idx = \<lparr>ds_rrd_data = rrd_data, ds_rrd_data_idx = rrd_data_idx\<rparr>"

definition ds_getName :: "rrdds \<Rightarrow> string" where
  "ds_getName d = getCStringAt (ds_rrd_data d) (ds_rrd_data_idx d) 20"

definition ds_getType :: "rrdds \<Rightarrow> string" where
  "ds_getType d = getCStringAt (ds_rrd_data d) (ds_rrd_data_idx d + 20) 20"

definition ds_getMin :: "rrdds \<Rightarrow> double" where
  "ds_getMin d = getDoubleAt (ds_rrd_data d) (ds_rrd_data_idx d + 48)"

definition ds_getMax :: "rrdds \<Rightarrow> double" where
  "ds_getMax d = getDoubleAt (ds_rrd_data d) (ds_rrd_data_idx d + 56)"

section \<open>RRDRRA: one round robin archive\<close>

text \<open>
  The record holds the constructor's arguments and its three local variables
  (\<open>row_size\<close>, \<open>base_rrd_db_idx\<close>, \<open>cur_row\<close>), which the methods close over. No method
  assigns to any of them.
\<close>

record rrdrra =
  v_rrd_data :: bytesource
  v_rrd_align :: int
  v_rra_def_idx :: int
  v_rra_ptr_idx :: int
  v_header_size :: int
  v_row_cnt :: int
  v_prev_row_cnts :: int
  v_ds_cnt :: int
  v_pdp_step :: int
  v_row_size :: int
  v_base_rrd_db_idx :: int
  v_cur_row :: int

definition RRDRRA ::
  "bytesource \<Rightarrow> int \<Rightarrow> int \<Rightarrow> int \<Rightarrow> int \<Rightarrow> int \<Rightarrow> int \<Rightarrow> int \<Rightarrow> int \<Rightarrow> rrdrra" where
  "RRDRRA rrd_data rrd_align rra_def_idx rra_ptr_idx header_size row_cnt prev_row_cnts ds_cnt pdp_step =
     (let row_size = js_mul ds_cnt 8;
          base_rrd_db_idx = js_add header_size (js_mul prev_row_cnts row_size);
          cur_row = uint (getLongAt rrd_data rra_ptr_idx)
      in \<lparr>v_rrd_data = rrd_data, v_rrd_align = rrd_align,
          v_rra_def_idx = rra_def_idx, v_rra_ptr_idx = rra_ptr_idx,
          v_header_size = header_size, v_row_cnt = row_cnt,
          v_prev_row_cnts = prev_row_cnts, v_ds_cnt = ds_cnt, v_pdp_step = pdp_step,
          v_row_size = row_size, v_base_rrd_db_idx = base_rrd_db_idx,
          v_cur_row = cur_row\<rparr>)"

text \<open>
  The local \<open>real_row_idx\<close> of \<open>calc_idx\<close>, after the conditional subtraction. It is
  computed behind the row guard of \<open>calc_idx\<close>, from a row index below the row count and
  a head row below \<open>2 ^ 32\<close>, and is exact.
\<close>

definition real_row_idx :: "rrdrra \<Rightarrow> int \<Rightarrow> int" where
  "real_row_idx v row_idx =
     (let r = row_idx + v_cur_row v + 1
      in if r \<ge> v_row_cnt v then r - v_row_cnt v else r)"

definition calc_idx :: "rrdrra \<Rightarrow> int \<Rightarrow> int \<Rightarrow> error + int" where
  "calc_idx v row_idx ds_idx =
     (if row_idx \<ge> 0 \<and> row_idx < v_row_cnt v then
        if ds_idx \<ge> 0 \<and> ds_idx < v_ds_cnt v then
          Inr (js_add (js_mul (v_row_size v) (real_row_idx v row_idx)) (js_mul ds_idx 8))
        else
          Inl (RangeError (''DS idx ('' @ ToString row_idx @ '') out of range [0-''
                           @ ToString (v_ds_cnt v) @ '').''))
      else
        Inl (RangeError (''Row idx ('' @ ToString row_idx @ '') out of range [0-''
                         @ ToString (v_row_cnt v) @ '').'')))"

definition rra_getName :: "rrdrra \<Rightarrow> string" where
  "rra_getName v = getCStringAt (v_rrd_data v) (v_rra_def_idx v) 20"

definition getPdpPerRow :: "rrdrra \<Rightarrow> int" where
  "getPdpPerRow v =
     (if v_rrd_align v = 32 then uint (getLongAt (v_rrd_data v) (v_rra_def_idx v + 24))
      else uint (getLongAt (v_rrd_data v) (v_rra_def_idx v + 32)))"

definition getSecsPerRow :: "rrdrra \<Rightarrow> int" where
  "getSecsPerRow v = js_mul (v_pdp_step v) (getPdpPerRow v)"

definition getNrRows :: "rrdrra \<Rightarrow> int" where
  "getNrRows v = v_row_cnt v"

definition rra_getNrDSs :: "rrdrra \<Rightarrow> int" where
  "rra_getNrDSs v = v_ds_cnt v"

definition getEl :: "rrdrra \<Rightarrow> int \<Rightarrow> int \<Rightarrow> error + double" where
  "getEl v row_idx ds_idx =
     (case calc_idx v row_idx ds_idx of
        Inl e \<Rightarrow> Inl e
      | Inr off \<Rightarrow> Inr (getDoubleAt (v_rrd_data v) (js_add (v_base_rrd_db_idx v) off)))"

definition getElFast :: "rrdrra \<Rightarrow> int \<Rightarrow> int \<Rightarrow> error + double" where
  "getElFast v row_idx ds_idx =
     (case calc_idx v row_idx ds_idx of
        Inl e \<Rightarrow> Inl e
      | Inr off \<Rightarrow> Inr (getFastDoubleAt (v_rrd_data v) (js_add (v_base_rrd_db_idx v) off)))"

section \<open>RRDHeader\<close>

text \<open>
  The header object. Every field the constructor and \<open>load_row_cnts\<close> assign is a field
  of the record; the two arrays are maps from index to number, an index never written
  being absent as it is \<open>undefined\<close> in JavaScript.
\<close>

record rrdheader =
  rrd_data :: bytesource
  rrd_version :: string
  rrd_align :: int
  ds_cnt :: int
  rra_cnt :: int
  pdp_step :: int
  top_header_size :: int
  ds_def_idx :: int
  ds_el_size :: int
  rra_def_idx :: int
  row_cnt_idx :: int
  rra_def_el_size :: int
  live_head_idx :: int
  live_head_size :: int
  pdp_prep_idx :: int
  pdp_prep_el_size :: int
  cdp_prep_idx :: int
  cdp_prep_el_size :: int
  rra_ptr_idx :: int
  rra_ptr_el_size :: int
  header_size :: int
  rra_def_row_cnts :: "int \<Rightarrow> int option"
  rra_def_row_cnt_sums :: "int \<Rightarrow> int option"

text \<open>
  The object as \<open>new\<close> hands it to the constructor body, after \<open>this.rrd_data=rrd_data\<close>:
  the other fields are not assigned yet, and each is written by the initialisation
  before anything reads it. The placeholders stand for the missing fields.
\<close>

definition new_header :: "bytesource \<Rightarrow> rrdheader" where
  "new_header bf =
     \<lparr>rrd_data = bf, rrd_version = [], rrd_align = 0, ds_cnt = 0, rra_cnt = 0,
      pdp_step = 0, top_header_size = 0, ds_def_idx = 0, ds_el_size = 0,
      rra_def_idx = 0, row_cnt_idx = 0, rra_def_el_size = 0, live_head_idx = 0,
      live_head_size = 0, pdp_prep_idx = 0, pdp_prep_el_size = 0, cdp_prep_idx = 0,
      cdp_prep_el_size = 0, rra_ptr_idx = 0, rra_ptr_el_size = 0, header_size = 0,
      rra_def_row_cnts = (\<lambda>_. None), rra_def_row_cnt_sums = (\<lambda>_. None)\<rparr>"

definition validate_rrd :: "rrdheader \<Rightarrow> error + rrdheader" where
  "validate_rrd h =
     (if getCStringAt (rrd_data h) 0 4 \<noteq> ''RRD'' then Inl (InvalidRRD ''Wrong magic id.'')
      else
        let h1 = h\<lparr>rrd_version := getCStringAt (rrd_data h) 4 5\<rparr>
        in if rrd_version h1 \<noteq> ''0003'' \<and> rrd_version h1 \<noteq> ''0004'' then
             Inl (InvalidRRD (''Unsupported RRD version '' @ rrd_version h1 @ ''.''))
           else if js_eq (getDoubleAt (rrd_data h1) 12) sentinel then
             Inr (h1\<lparr>rrd_align := 32\<rparr>)
           else if js_eq (getDoubleAt (rrd_data h1) 16) sentinel then
             Inr (h1\<lparr>rrd_align := 64\<rparr>)
           else Inl (InvalidRRD ''Unsupported platform.''))"

definition load_header :: "rrdheader \<Rightarrow> rrdheader" where
  "load_header h =
     (if rrd_align h = 32 then
        h\<lparr>ds_cnt := uint (getLongAt (rrd_data h) 20),
          rra_cnt := uint (getLongAt (rrd_data h) 24),
          pdp_step := uint (getLongAt (rrd_data h) 28),
          top_header_size := 112\<rparr>
      else
        h\<lparr>ds_cnt := uint (getLongAt (rrd_data h) 24),
          rra_cnt := uint (getLongAt (rrd_data h) 32),
          pdp_step := uint (getLongAt (rrd_data h) 40),
          top_header_size := 128\<rparr>)"

text \<open>\<open>calc_idxs\<close>, one definition per assignment group, in the order of the source.\<close>

definition calc_ds_def :: "rrdheader \<Rightarrow> rrdheader" where
  "calc_ds_def h = h\<lparr>ds_def_idx := top_header_size h, ds_el_size := 120\<rparr>"

definition calc_rra_def :: "rrdheader \<Rightarrow> rrdheader" where
  "calc_rra_def h =
     (let h1 = h\<lparr>rra_def_idx := ds_def_idx h + ds_el_size h * ds_cnt h\<rparr>
      in if rrd_align h1 = 32 then h1\<lparr>rra_def_el_size := 108, row_cnt_idx := 20\<rparr>
         else h1\<lparr>rra_def_el_size := 120, row_cnt_idx := 24\<rparr>)"

definition calc_live_head :: "rrdheader \<Rightarrow> rrdheader" where
  "calc_live_head h =
     (let h1 = h\<lparr>live_head_idx := rra_def_idx h + rra_def_el_size h * rra_cnt h\<rparr>
      in if rrd_align h1 = 32 then h1\<lparr>live_head_size := 8\<rparr>
         else h1\<lparr>live_head_size := 16\<rparr>)"

definition calc_pdp_prep :: "rrdheader \<Rightarrow> rrdheader" where
  "calc_pdp_prep h =
     h\<lparr>pdp_prep_idx := live_head_idx h + live_head_size h, pdp_prep_el_size := 112\<rparr>"

definition calc_cdp_prep :: "rrdheader \<Rightarrow> rrdheader" where
  "calc_cdp_prep h =
     h\<lparr>cdp_prep_idx := pdp_prep_idx h + pdp_prep_el_size h * ds_cnt h, cdp_prep_el_size := 80\<rparr>"

definition calc_rra_ptr :: "rrdheader \<Rightarrow> rrdheader" where
  "calc_rra_ptr h =
     (let h1 = h\<lparr>rra_ptr_idx :=
                  js_add (cdp_prep_idx h) (js_mul (js_mul (cdp_prep_el_size h) (ds_cnt h)) (rra_cnt h))\<rparr>
      in if rrd_align h1 = 32 then h1\<lparr>rra_ptr_el_size := 4\<rparr>
         else h1\<lparr>rra_ptr_el_size := 8\<rparr>)"

definition calc_header_size :: "rrdheader \<Rightarrow> rrdheader" where
  "calc_header_size h =
     h\<lparr>header_size := js_add (rra_ptr_idx h) (js_mul (rra_ptr_el_size h) (rra_cnt h))\<rparr>"

definition calc_idxs :: "rrdheader \<Rightarrow> rrdheader" where
  "calc_idxs h =
     calc_header_size (calc_rra_ptr (calc_cdp_prep (calc_pdp_prep
       (calc_live_head (calc_rra_def (calc_ds_def h))))))"

definition RRDHeader :: "bytesource \<Rightarrow> error + rrdheader" where
  "RRDHeader bf =
     (case validate_rrd (new_header bf) of
        Inl e \<Rightarrow> Inl e
      | Inr h \<Rightarrow> Inr (calc_idxs (load_header h)))"

text \<open>
  \<open>load_row_cnts\<close>: the body of the \<open>for\<close> loop at index \<open>i\<close>, and the loop. The sum of
  two array cells is a number only when both cells hold one; with a cell missing
  JavaScript stores NaN, which the model leaves absent. The loop counter stays below the
  archive count.
\<close>

definition js_plus :: "int option \<Rightarrow> int option \<Rightarrow> int option" where
  "js_plus a b = (case (a, b) of (Some x, Some y) \<Rightarrow> Some (js_add x y) | _ \<Rightarrow> None)"

text \<open>The row count of archive \<open>i\<close> as the loop reads it from the byte source.\<close>

definition row_cnt_at :: "rrdheader \<Rightarrow> int \<Rightarrow> int" where
  "row_cnt_at h i =
     uint (getLongAt (rrd_data h) (rra_def_idx h + i * rra_def_el_size h + row_cnt_idx h))"

definition load_row_cnts_body :: "rrdheader \<Rightarrow> int \<Rightarrow> rrdheader" where
  "load_row_cnts_body h i =
     (let h1 = h\<lparr>rra_def_row_cnts := (rra_def_row_cnts h)(i \<mapsto> row_cnt_at h i)\<rparr>
      in if i = 0 then h1\<lparr>rra_def_row_cnt_sums := (rra_def_row_cnt_sums h1)(i \<mapsto> 0)\<rparr>
         else h1\<lparr>rra_def_row_cnt_sums := (rra_def_row_cnt_sums h1)
                   (i := js_plus (rra_def_row_cnt_sums h1 (i - 1)) (rra_def_row_cnts h1 (i - 1)))\<rparr>)"

function load_row_cnts_loop :: "rrdheader \<Rightarrow> int \<Rightarrow> rrdheader" where
  "load_row_cnts_loop h i =
     (if i < rra_cnt h then load_row_cnts_loop (load_row_cnts_body h i) (i + 1) else h)"
  by pat_completeness auto
termination
  by (relation "measure (\<lambda>(h, i). nat (rra_cnt h - i))")
     (auto simp: load_row_cnts_body_def Let_def)

declare load_row_cnts_loop.simps [simp del]

definition load_row_cnts :: "rrdheader \<Rightarrow> rrdheader" where
  "load_row_cnts h =
     load_row_cnts_loop
       (h\<lparr>rra_def_row_cnts := (\<lambda>_. None), rra_def_row_cnt_sums := (\<lambda>_. None)\<rparr>) 0"

definition getStep :: "rrdheader \<Rightarrow> int" where
  "getStep h = pdp_step h"

definition getLastUpdate :: "rrdheader \<Rightarrow> int" where
  "getLastUpdate h = uint (getLongAt (rrd_data h) (live_head_idx h))"

definition getNrDSs :: "rrdheader \<Rightarrow> int" where
  "getNrDSs h = ds_cnt h"

definition getDS :: "rrdheader \<Rightarrow> int \<Rightarrow> error + rrdds" where
  "getDS h idx =
     (if idx \<ge> 0 \<and> idx < ds_cnt h then
        Inr (RRDDS (rrd_data h) (ds_def_idx h + ds_el_size h * idx))
      else
        Inl (RangeError (''DS idx ('' @ ToString idx @ '') out of range [0-''
                         @ ToString (ds_cnt h) @ '').'')))"

section \<open>RRDFile\<close>

text \<open>
  The facade: the closure variable \<open>rrd_data\<close> and the field \<open>rrd_header\<close>. Its
  constructor builds the header and then runs \<open>load_row_cnts\<close> on it.
\<close>

record rrdfile =
  f_rrd_data :: bytesource
  rrd_header :: rrdheader

definition RRDFile :: "bytesource \<Rightarrow> error + rrdfile" where
  "RRDFile bf =
     (case RRDHeader bf of
        Inl e \<Rightarrow> Inl e
      | Inr h \<Rightarrow> Inr \<lparr>f_rrd_data = bf, rrd_header = load_row_cnts h\<rparr>)"

definition file_getDS :: "rrdfile \<Rightarrow> int \<Rightarrow> error + rrdds" where
  "file_getDS f idx = getDS (rrd_header f) idx"

definition getNrRRAs :: "rrdfile \<Rightarrow> int" where
  "getNrRRAs f = rra_cnt (rrd_header f)"

definition getRRA :: "rrdfile \<Rightarrow> int \<Rightarrow> error + rrdrra" where
  "getRRA f idx =
     (let h = rrd_header f
      in if idx \<ge> 0 \<and> idx < rra_cnt h then
           (case (rra_def_row_cnts h idx, rra_def_row_cnt_sums h idx) of
              (Some row_cnt, Some prev_row_cnts) \<Rightarrow>
                Inr (RRDRRA (f_rrd_data f) (rrd_align h)
                       (rra_def_idx h + idx * rra_def_el_size h)
                       (js_add (rra_ptr_idx h) (js_mul idx (rra_ptr_el_size h)))
                       (header_size h) row_cnt prev_row_cnts (ds_cnt h) (pdp_step h))
            | _ \<Rightarrow> Inl UndefinedRowCnt)
         else
           Inl (RangeError (''RRA idx ('' @ ToString idx @ '') out of range [0-''
                            @ ToString (rra_cnt h) @ '').'')))"

text \<open>
  A lookup on the file object, with the object as it is after the call. Neither
  \<open>getDS\<close> nor \<open>getRRA\<close> contains an assignment to a field of the file or of its header,
  so the object comes back as it went in.
\<close>

definition call_getDS :: "rrdfile \<Rightarrow> int \<Rightarrow> (error + rrdds) \<times> rrdfile" where
  "call_getDS f idx = (file_getDS f idx, f)"

definition call_getRRA :: "rrdfile \<Rightarrow> int \<Rightarrow> (error + rrdrra) \<times> rrdfile" where
  "call_getRRA f idx = (getRRA f idx, f)"

text \<open>
  A call of \<open>getEl\<close> on a view of a file, with both objects as they are after the
  call: \<open>getEl\<close> and \<open>calc_idx\<close> assign only the local \<open>real_row_idx\<close>, so the file
  (with its header) and the view come back as they went in, whether the call returns or
  throws.
\<close>

definition call_getEl ::
  "rrdfile \<times> rrdrra \<Rightarrow> int \<Rightarrow> int \<Rightarrow> (error + double) \<times> (rrdfile \<times> rrdrra)" where
  "call_getEl s row_idx ds_idx = (getEl (snd s) row_idx ds_idx, s)"

section \<open>Row counts of the archives before an archive\<close>

text \<open>
  Stated from the specification, to compare \<open>load_row_cnts\<close> with: the number of rows
  of the archives before archive \<open>k\<close>, as the sum of their row counts in the byte source.
\<close>

definition rows_before :: "rrdheader \<Rightarrow> int \<Rightarrow> int" where
  "rows_before h k = (\<Sum>j = 0..<nat k. row_cnt_at h (int j))"

text \<open>
  The same number as the loop of \<open>load_row_cnts\<close> accumulates it, one rounded addition
  for each archive.
\<close>

primrec js_rows_before :: "rrdheader \<Rightarrow> nat \<Rightarrow> int" where
  "js_rows_before h 0 = 0"
| "js_rows_before h (Suc k) = js_add (js_rows_before h k) (row_cnt_at h (int k))"

section \<open>Sample archives\<close>

text \<open>
  A 32-bit archive of version 0003 with two data sources and one round robin archive of
  ten rows, step 300, whose most recent row is row 3. Its sections start at 112 (data
  source definitions), 352 (archive definitions), 460 (live head), 468, 692 (scratch
  areas) and 852 (archive pointers); the samples start at 856. A double read at any
  offset other than the sentinel's returns the offset itself, so that a read shows where
  it went.
\<close>

definition sample_bf :: bytesource where
  "sample_bf =
     \<lparr>getLongAt = (\<lambda>i. if i = 20 then 2 else if i = 24 then 1 else if i = 28 then 300
                        else if i = 372 then 10 else if i = 852 then 3 else 0),
      getDoubleAt = (\<lambda>i. if i = 12 then sentinel else word_of_int i),
      getFastDoubleAt = (\<lambda>i. word_of_int i),
      getCStringAt = (\<lambda>i n. if i = 0 \<and> n = 4 then ''RRD''
                             else if i = 4 \<and> n = 5 then ''0003'' else [])\<rparr>"

definition sample_view :: rrdrra where
  "sample_view = RRDRRA sample_bf 32 352 852 856 10 0 2 300"

text \<open>The file object and the header that \<open>RRDFile\<close> builds from it.\<close>

definition sample_header :: rrdheader where
  "sample_header =
     calc_idxs (load_header ((new_header sample_bf)\<lparr>rrd_version := ''0003'', rrd_align := 32\<rparr>))"

definition sample_file :: rrdfile where
  "sample_file = \<lparr>f_rrd_data = sample_bf, rrd_header = load_row_cnts sample_header\<rparr>"

text \<open>
  The same archive of version 0004 in the 64-bit layout: sections at 128, 368, 488, 504,
  728 and 888, samples from 896.
\<close>

definition sample64_bf :: bytesource where
  "sample64_bf =
     \<lparr>getLongAt = (\<lambda>i. if i = 24 then 2 else if i = 32 then 1 else if i = 40 then 300
                        else if i = 392 then 10 else if i = 888 then 3 else 0),
      getDoubleAt = (\<lambda>i. if i = 16 then sentinel else word_of_int i),
      getFastDoubleAt = (\<lambda>i. word_of_int i),
      getCStringAt = (\<lambda>i n. if i = 0 \<and> n = 4 then ''RRD''
                             else if i = 4 \<and> n = 5 then ''0004'' else [])\<rparr>"

text \<open>The 32-bit archive with a head pointer of 13, beyond its ten rows.\<close>

definition stale_bf :: bytesource where
  "stale_bf =
     sample_bf\<lparr>getLongAt := (\<lambda>i. if i = 852 then 13 else getLongAt sample_bf i)\<rparr>"

text \<open>The 32-bit archive with the alignment sentinel at neither offset.\<close>

definition noplatform_bf :: bytesource where
  "noplatform_bf = sample_bf\<lparr>getDoubleAt := (\<lambda>i. word_of_int i)\<rparr>"

text \<open>The 32-bit archive with another magic marker, and with a version 0001.\<close>

definition nomagic_bf :: bytesource where
  "nomagic_bf =
     sample_bf\<lparr>getCStringAt := (\<lambda>i n. if i = 0 \<and> n = 4 then ''RRDX''
                                        else getCStringAt sample_bf i n)\<rparr>"

definition oldversion_bf :: bytesource where
  "oldversion_bf =
     sample_bf\<lparr>getCStringAt := (\<lambda>i n. if i = 4 \<and> n = 5 then ''0001''
                                        else getCStringAt sample_bf i n)\<rparr>"

text \<open>
  A 32-bit archive with one data source and three round robin archives of 10, 20 and 30
  rows: archive definitions from 232, archive pointers from 916, samples from 928.
\<close>

definition three_rra_bf :: bytesource where
  "three_rra_bf =
     \<lparr>getLongAt = (\<lambda>i. if i = 20 then 1 else if i = 24 then 3 else if i = 28 then 300
                        else if i = 252 then 10 else if i = 360 then 20
                        else if i = 468 then 30 else 0),
      getDoubleAt = (\<lambda>i. if i = 12 then sentinel else word_of_int i),
      getFastDoubleAt = (\<lambda>i. word_of_int i),
      getCStringAt = (\<lambda>i n. if i = 0 \<and> n = 4 then ''RRD''
                             else if i = 4 \<and> n = 5 then ''0003'' else [])\<rparr>"

definition three_rra_header :: rrdheader where
  "three_rra_header =
     calc_idxs (load_header ((new_header three_rra_bf)\<lparr>rrd_version := ''0003'', rrd_align := 32\<rparr>))"

definition three_rra_file :: rrdfile where
  "three_rra_file = \<lparr>f_rrd_data = three_rra_bf, rrd_header = load_row_cnts three_rra_header\<rparr>"

text \<open>
  A 32-bit archive with \<open>2 ^ 27 + 1\<close> data sources and one round robin archive of
  \<open>2 ^ 28\<close> rows with head row 3: archive definitions from 16106127592, archive pointer
  at 41875931676, samples from 41875931680, rows of 1073741832 bytes.
\<close>

definition big_bf :: bytesource where
  "big_bf =
     \<lparr>getLongAt = (\<lambda>i. if i = 20 then 134217729 else if i = 24 then 1
                        else if i = 28 then 300 else if i = 16106127612 then 268435456
                        else if i = 41875931676 then 3 else 0),
      getDoubleAt = (\<lambda>i. if i = 12 then sentinel else word_of_int i),
      getFastDoubleAt = (\<lambda>i. word_of_int i),
      getCStringAt = (\<lambda>i n. if i = 0 \<and> n = 4 then ''RRD''
                             else if i = 4 \<and> n = 5 then ''0003'' else [])\<rparr>"

definition big_view :: rrdrra where
  "big_view = RRDRRA big_bf 32 16106127592 41875931676 41875931680 268435456 0 134217729 300"

text \<open>A 32-bit archive whose counts of data sources and of archives are both \<open>2 ^ 32 - 1\<close>.\<close>

definition maxcount_bf :: bytesource where
  "maxcount_bf =
     \<lparr>getLongAt = (\<lambda>i. if i = 20 then 4294967295 else if i = 24 then 4294967295
                        else if i = 28 then 300 else 0),
      getDoubleAt = (\<lambda>i. if i = 12 then sentinel else word_of_int i),
      getFastDoubleAt = (\<lambda>i. word_of_int i),
      getCStringAt = (\<lambda>i n. if i = 0 \<and> n = 4 then ''RRD''
                             else if i = 4 \<and> n = 5 then ''0003'' else [])\<rparr>"

definition maxcount_header :: rrdheader where
  "maxcount_header =
     calc_idxs (load_header ((new_header maxcount_bf)\<lparr>rrd_version := ''0003'', rrd_align := 32\<rparr>))"

text \<open>
  A 32-bit archive with one data source and 2097154 round robin archives, every row
  count and every other 32-bit value of the file being \<open>2 ^ 32 - 1\<close>.
\<close>

definition manyrows_bf :: bytesource where
  "manyrows_bf =
     \<lparr>getLongAt = (\<lambda>i. if i = 20 then 1 else if i = 24 then 2097154
                        else if i = 28 then 300 else 4294967295),
      getDoubleAt = (\<lambda>i. if i = 12 then sentinel else word_of_int i),
      getFastDoubleAt = (\<lambda>i. word_of_int i),
      getCStringAt = (\<lambda>i n. if i = 0 \<and> n = 4 then ''RRD''
                             else if i = 4 \<and> n = 5 then ''0003'' else [])\<rparr>"

definition manyrows_header :: rrdheader where
  "manyrows_header =
     calc_idxs (load_header ((new_header manyrows_bf)\<lparr>rrd_version := ''0003'', rrd_align := 32\<rparr>))"

definition manyrows_file :: rrdfile where
  "manyrows_file = \<lparr>f_rrd_data = manyrows_bf, rrd_header = load_row_cnts manyrows_header\<rparr>"

section \<open>Facts about the model\<close>

subsection \<open>Rounding\<close>

text \<open>Integers up to \<open>2 ^ 53\<close> in magnitude are doubles: rounding leaves them as they are.\<close>

lemma bit_length_le: "n < 2 ^ k \<Longrightarrow> bit_length n \<le> k"
proof (induction k arbitrary: n)
  case 0
  then show ?case by (simp add: bit_length.simps)
next
  case (Suc k)
  show ?case
  proof (cases "n = 0")
    case True
    then show ?thesis by (simp add: bit_length.simps)
  next
    case False
    from Suc.prems have "n div 2 < 2 ^ k" by auto
    then have "bit_length (n div 2) \<le> k" by (rule Suc.IH)
    with False show ?thesis by (subst bit_length.simps) simp
  qed
qed

lemma round53_exact: "m \<le> 2 ^ 53 \<Longrightarrow> round53 m = m"
proof (cases "m < 2 ^ 53")
  case True
  then have "bit_length m \<le> 53" by (rule bit_length_le)
  then show ?thesis by (simp add: round53_def Let_def)
next
  case False
  moreover assume "m \<le> 2 ^ 53"
  ultimately have "m = 2 ^ 53" by simp
  then show ?thesis by (simp add: round53_def bit_length.simps Let_def)
qed

lemma to_double_exact: "- (2 ^ 53) \<le> x \<Longrightarrow> x \<le> 2 ^ 53 \<Longrightarrow> to_double x = x"
proof (cases "x < 0")
  case True
  moreover assume "- (2 ^ 53) \<le> x"
  ultimately have "nat (- x) \<le> 2 ^ 53" by (simp add: nat_le_iff)
  then show ?thesis using True by (simp add: to_double_def round53_exact)
next
  case False
  moreover assume "x \<le> 2 ^ 53"
  ultimately have "nat x \<le> 2 ^ 53" by (simp add: nat_le_iff)
  then show ?thesis using False by (simp add: to_double_def round53_exact)
qed

lemma js_add_exact: "- (2 ^ 53) \<le> a + b \<Longrightarrow> a + b \<le> 2 ^ 53 \<Longrightarrow> js_add a b = a + b"
  by (simp add: js_add_def to_double_exact)

lemma js_mul_exact: "- (2 ^ 53) \<le> a * b \<Longrightarrow> a * b \<le> 2 ^ 53 \<Longrightarrow> js_mul a b = a * b"
  by (simp add: js_mul_def to_double_exact)

lemma js_mul_exactI: "c = a * b \<Longrightarrow> - (2 ^ 53) \<le> c \<Longrightarrow> c \<le> 2 ^ 53 \<Longrightarrow> js_mul a b = c"
  by (simp add: js_mul_exact)

lemmas js_exact = js_add_exact js_mul_exact

lemmas js_eval = js_add_def js_mul_def to_double_def round53_def bit_length.simps Let_def

subsection \<open>The sentinel comparison\<close>

text \<open>
  The sentinel is neither NaN nor a zero, so \<open>==\<close> against it holds exactly for the
  sentinel's own bit pattern.
\<close>

lemma js_eq_sentinel: "js_eq x sentinel \<longleftrightarrow> x = sentinel"
  by (auto simp: js_eq_def is_nan_def is_zero_def sentinel_def)

lemmas calc_defs =
  calc_idxs_def calc_ds_def_def calc_rra_def_def calc_live_head_def
  calc_pdp_prep_def calc_cdp_prep_def calc_rra_ptr_def calc_header_size_def

subsection \<open>The circular row mapping\<close>

lemma real_row_idx_no_wrap:
  "row_idx + v_cur_row v + 1 < v_row_cnt v \<Longrightarrow> real_row_idx v row_idx = row_idx + v_cur_row v + 1"
  by (simp add: real_row_idx_def Let_def)

lemma real_row_idx_wrap:
  "v_row_cnt v \<le> row_idx + v_cur_row v + 1 \<Longrightarrow>
   real_row_idx v row_idx = row_idx + v_cur_row v + 1 - v_row_cnt v"
  by (simp add: real_row_idx_def Let_def)

lemma real_row_idx_mod:
  assumes "0 \<le> row_idx" "row_idx < v_row_cnt v" "0 \<le> v_cur_row v" "v_cur_row v < v_row_cnt v"
  shows "real_row_idx v row_idx = (row_idx + v_cur_row v + 1) mod v_row_cnt v"
proof (cases "row_idx + v_cur_row v + 1 \<ge> v_row_cnt v")
  case True
  define r where "r = row_idx + v_cur_row v + 1"
  define n where "n = v_row_cnt v"
  have "r mod n = (r - n) mod n" by simp
  also have "\<dots> = r - n"
    using assms True by (intro mod_pos_pos_trivial) (simp_all add: r_def n_def)
  finally show ?thesis using True by (simp add: real_row_idx_wrap r_def n_def)
next
  case False
  then show ?thesis using assms by (simp add: real_row_idx_no_wrap)
qed

lemma real_row_idx_last:
  "0 \<le> v_cur_row v \<Longrightarrow> real_row_idx v (v_row_cnt v - 1) = v_cur_row v"
  by (simp add: real_row_idx_def Let_def)

lemma RRDRRA_sel [simp]:
  "v_rrd_data (RRDRRA bf al d p hs rc prev dc st) = bf"
  "v_row_cnt (RRDRRA bf al d p hs rc prev dc st) = rc"
  "v_ds_cnt (RRDRRA bf al d p hs rc prev dc st) = dc"
  "v_row_size (RRDRRA bf al d p hs rc prev dc st) = js_mul dc 8"
  "v_base_rrd_db_idx (RRDRRA bf al d p hs rc prev dc st) = js_add hs (js_mul prev (js_mul dc 8))"
  "v_cur_row (RRDRRA bf al d p hs rc prev dc st) = uint (getLongAt bf p)"
  by (simp_all add: RRDRRA_def Let_def)

lemma calc_idx_valid:
  "0 \<le> row_idx \<Longrightarrow> row_idx < v_row_cnt v \<Longrightarrow> 0 \<le> ds_idx \<Longrightarrow> ds_idx < v_ds_cnt v \<Longrightarrow>
   calc_idx v row_idx ds_idx
     = Inr (js_add (js_mul (v_row_size v) (real_row_idx v row_idx)) (js_mul ds_idx 8))"
  by (simp add: calc_idx_def)

lemma calc_idx_bad_row:
  "row_idx < 0 \<or> v_row_cnt v \<le> row_idx \<Longrightarrow>
   calc_idx v row_idx ds_idx =
     Inl (RangeError (''Row idx ('' @ ToString row_idx @ '') out of range [0-''
                      @ ToString (v_row_cnt v) @ '').''))"
  by (auto simp: calc_idx_def)

lemma calc_idx_bad_ds:
  "0 \<le> row_idx \<Longrightarrow> row_idx < v_row_cnt v \<Longrightarrow> ds_idx < 0 \<or> v_ds_cnt v \<le> ds_idx \<Longrightarrow>
   calc_idx v row_idx ds_idx =
     Inl (RangeError (''DS idx ('' @ ToString row_idx @ '') out of range [0-''
                      @ ToString (v_ds_cnt v) @ '').''))"
  by (auto simp: calc_idx_def)

text \<open>
  The byte offset of a sample, when the head row is below the row count and the
  sample area of the archive ends at or below \<open>2 ^ 53\<close>: no operation rounds.
\<close>

lemma sample_offset_exact:
  fixes bf al d p hs rc prev dc st
  defines "v \<equiv> RRDRRA bf al d p hs rc prev dc st"
  assumes row: "0 \<le> row_idx" "row_idx < rc" and ds: "0 \<le> ds_idx" "ds_idx < dc"
    and head: "uint (getLongAt bf p) < rc"
    and nonneg: "0 \<le> hs" "0 \<le> prev"
    and small: "hs + prev * (dc * 8) + dc * 8 * rc \<le> 2 ^ 53"
  shows "calc_idx v row_idx ds_idx
           = Inr (dc * 8 * ((row_idx + uint (getLongAt bf p) + 1) mod rc) + ds_idx * 8)"
    and "js_add (v_base_rrd_db_idx v)
           (dc * 8 * ((row_idx + uint (getLongAt bf p) + 1) mod rc) + ds_idx * 8)
         = hs + prev * (dc * 8)
           + dc * 8 * ((row_idx + uint (getLongAt bf p) + 1) mod rc) + ds_idx * 8"
proof -
  define q where "q = (row_idx + uint (getLongAt bf p) + 1) mod rc"
  define S where "S = dc * 8"
  define A where "A = prev * S"
  define B where "B = S * rc"
  define Q where "Q = S * q"
  define D where "D = ds_idx * 8"
  have vf: "v_row_cnt v = rc" "v_ds_cnt v = dc" "v_row_size v = js_mul dc 8"
    "v_base_rrd_db_idx v = js_add hs (js_mul prev (js_mul dc 8))"
    "v_cur_row v = uint (getLongAt bf p)"
    by (simp_all add: v_def)
  have rc: "0 < rc" using row by simp
  have q: "0 \<le> q" "q \<le> rc - 1"
    using rc by (simp_all add: q_def zle_diff1_eq)
  have phys: "real_row_idx v row_idx = q"
    using real_row_idx_mod [of row_idx v] row head by (simp add: vf q_def)
  have S: "0 \<le> S" and D: "0 \<le> D" "D + 8 \<le> S"
    using ds by (simp_all add: S_def D_def)
  have Q: "0 \<le> Q" "Q \<le> S * (rc - 1)"
    using q S by (simp_all add: Q_def mult_left_mono)
  have SB: "S * (rc - 1) = B - S"
    by (simp add: B_def algebra_simps)
  have "0 \<le> S * (rc - 1)"
    using S rc by simp
  then have B: "S \<le> B" unfolding SB by simp
  have A: "0 \<le> A"
    using nonneg S by (simp add: A_def)
  have small': "hs + A + B \<le> 2 ^ 53"
    using small by (simp add: A_def B_def S_def)
  have bounds: "- (2 ^ 53) \<le> S" "S \<le> 2 ^ 53" "- (2 ^ 53) \<le> Q" "Q \<le> 2 ^ 53"
    "- (2 ^ 53) \<le> D" "D \<le> 2 ^ 53" "- (2 ^ 53) \<le> A" "A \<le> 2 ^ 53"
    "- (2 ^ 53) \<le> Q + D" "Q + D \<le> 2 ^ 53" "- (2 ^ 53) \<le> hs + A" "hs + A \<le> 2 ^ 53"
    "- (2 ^ 53) \<le> hs + A + (Q + D)" "hs + A + (Q + D) \<le> 2 ^ 53"
    using S D Q B A small' nonneg unfolding SB by simp_all
  have r1: "js_mul dc 8 = S"
    using bounds(1,2) by (rule js_mul_exactI [OF S_def])
  have r2: "js_mul S q = Q"
    using bounds(3,4) by (rule js_mul_exactI [OF Q_def])
  have r3: "js_mul ds_idx 8 = D"
    using bounds(5,6) by (rule js_mul_exactI [OF D_def])
  have r4: "js_add Q D = Q + D"
    using bounds(9,10) by (rule js_add_exact)
  have r5: "js_mul prev S = A"
    using bounds(7,8) by (rule js_mul_exactI [OF A_def])
  have r6: "js_add hs A = hs + A"
    using bounds(11,12) by (rule js_add_exact)
  have r7: "js_add (hs + A) (Q + D) = hs + A + (Q + D)"
    using bounds(13,14) by (rule js_add_exact)
  have off: "Q + D = dc * 8 * q + ds_idx * 8"
    by (simp only: Q_def D_def S_def)
  have "calc_idx v row_idx ds_idx
      = Inr (js_add (js_mul (v_row_size v) (real_row_idx v row_idx)) (js_mul ds_idx 8))"
    using row ds by (intro calc_idx_valid) (simp_all add: vf)
  also have "\<dots> = Inr (Q + D)"
    by (simp only: vf phys r1 r2 r3 r4)
  finally show "calc_idx v row_idx ds_idx
           = Inr (dc * 8 * ((row_idx + uint (getLongAt bf p) + 1) mod rc) + ds_idx * 8)"
    unfolding off q_def .
  have "js_add (v_base_rrd_db_idx v) (Q + D) = hs + A + (Q + D)"
    by (simp only: vf r1 r5 r6 r7)
  also have "\<dots> = hs + prev * (dc * 8) + dc * 8 * q + ds_idx * 8"
    by (simp only: A_def Q_def D_def S_def add.assoc)
  finally show "js_add (v_base_rrd_db_idx v)
           (dc * 8 * ((row_idx + uint (getLongAt bf p) + 1) mod rc) + ds_idx * 8)
         = hs + prev * (dc * 8)
           + dc * 8 * ((row_idx + uint (getLongAt bf p) + 1) mod rc) + ds_idx * 8"
    unfolding off q_def .
qed

subsection \<open>Header validation and offsets\<close>

lemma validate_rrd_magic:
  "getCStringAt (rrd_data h) 0 4 \<noteq> ''RRD'' \<Longrightarrow> validate_rrd h = Inl (InvalidRRD ''Wrong magic id.'')"
  by (simp add: validate_rrd_def)

lemma validate_rrd_version:
  "getCStringAt (rrd_data h) 0 4 = ''RRD'' \<Longrightarrow>
   getCStringAt (rrd_data h) 4 5 \<noteq> ''0003'' \<Longrightarrow> getCStringAt (rrd_data h) 4 5 \<noteq> ''0004'' \<Longrightarrow>
   validate_rrd h =
     Inl (InvalidRRD (''Unsupported RRD version '' @ getCStringAt (rrd_data h) 4 5 @ ''.''))"
  by (simp add: validate_rrd_def Let_def)

lemma validate_rrd_align:
  "getCStringAt (rrd_data h) 0 4 = ''RRD'' \<Longrightarrow>
   getCStringAt (rrd_data h) 4 5 = ''0003'' \<or> getCStringAt (rrd_data h) 4 5 = ''0004'' \<Longrightarrow>
   validate_rrd h =
     (if js_eq (getDoubleAt (rrd_data h) 12) sentinel then
        Inr (h\<lparr>rrd_version := getCStringAt (rrd_data h) 4 5, rrd_align := 32\<rparr>)
      else if js_eq (getDoubleAt (rrd_data h) 16) sentinel then
        Inr (h\<lparr>rrd_version := getCStringAt (rrd_data h) 4 5, rrd_align := 64\<rparr>)
      else Inl (InvalidRRD ''Unsupported platform.''))"
  by (auto simp: validate_rrd_def Let_def)

lemma load_header_keeps [simp]:
  "rrd_data (load_header h) = rrd_data h"
  "rrd_version (load_header h) = rrd_version h"
  "rrd_align (load_header h) = rrd_align h"
  "top_header_size (load_header h) = (if rrd_align h = 32 then 112 else 128)"
  "0 \<le> ds_cnt (load_header h)"
  "0 \<le> rra_cnt (load_header h)"
  by (simp_all add: load_header_def)

lemma load_header_small:
  "ds_cnt (load_header h) < 2 ^ 32" "rra_cnt (load_header h) < 2 ^ 32"
  "pdp_step (load_header h) < 2 ^ 32"
  using uint_lt2p [of "getLongAt (rrd_data h) 20"] uint_lt2p [of "getLongAt (rrd_data h) 24"]
    uint_lt2p [of "getLongAt (rrd_data h) 28"] uint_lt2p [of "getLongAt (rrd_data h) 32"]
    uint_lt2p [of "getLongAt (rrd_data h) 40"]
  by (simp_all add: load_header_def)

lemma calc_idxs_keeps [simp]:
  "rrd_data (calc_idxs h) = rrd_data h"
  "rrd_version (calc_idxs h) = rrd_version h"
  "rrd_align (calc_idxs h) = rrd_align h"
  "ds_cnt (calc_idxs h) = ds_cnt h"
  "rra_cnt (calc_idxs h) = rra_cnt h"
  "pdp_step (calc_idxs h) = pdp_step h"
  "top_header_size (calc_idxs h) = top_header_size h"
  by (simp_all add: calc_defs Let_def)

lemma calc_idxs_sizes:
  "ds_el_size (calc_idxs h) = 120"
  "rra_def_el_size (calc_idxs h) = (if rrd_align h = 32 then 108 else 120)"
  "row_cnt_idx (calc_idxs h) = (if rrd_align h = 32 then 20 else 24)"
  "live_head_size (calc_idxs h) = (if rrd_align h = 32 then 8 else 16)"
  "pdp_prep_el_size (calc_idxs h) = 112"
  "cdp_prep_el_size (calc_idxs h) = 80"
  "rra_ptr_el_size (calc_idxs h) = (if rrd_align h = 32 then 4 else 8)"
  by (simp_all add: calc_defs Let_def)

lemma calc_idxs_offsets:
  "ds_def_idx (calc_idxs h) = top_header_size h"
  "rra_def_idx (calc_idxs h) = ds_def_idx (calc_idxs h) + 120 * ds_cnt h"
  "live_head_idx (calc_idxs h)
     = rra_def_idx (calc_idxs h) + (if rrd_align h = 32 then 108 else 120) * rra_cnt h"
  "pdp_prep_idx (calc_idxs h)
     = live_head_idx (calc_idxs h) + (if rrd_align h = 32 then 8 else 16)"
  "cdp_prep_idx (calc_idxs h) = pdp_prep_idx (calc_idxs h) + 112 * ds_cnt h"
  "rra_ptr_idx (calc_idxs h)
     = js_add (cdp_prep_idx (calc_idxs h)) (js_mul (js_mul 80 (ds_cnt h)) (rra_cnt h))"
  "header_size (calc_idxs h)
     = js_add (rra_ptr_idx (calc_idxs h))
         (js_mul (if rrd_align h = 32 then 4 else 8) (rra_cnt h))"
  by (simp_all add: calc_defs Let_def)

lemma RRDHeader_Inr:
  "RRDHeader bf = Inr h \<longleftrightarrow>
     (\<exists>hv. validate_rrd (new_header bf) = Inr hv \<and> h = calc_idxs (load_header hv))"
  by (auto simp: RRDHeader_def split: sum.splits)

lemma RRDHeader_Inl:
  "RRDHeader bf = Inl e \<longleftrightarrow> validate_rrd (new_header bf) = Inl e"
  by (auto simp: RRDHeader_def split: sum.splits)

lemma rrd_data_new_header [simp]: "rrd_data (new_header bf) = bf"
  by (simp add: new_header_def)

text \<open>
  In a header built from a byte source the counts are below \<open>2 ^ 32\<close>, and the offsets
  that \<open>calc_idxs\<close> computes with \<open>+\<close> and \<open>*\<close> are far below \<open>2 ^ 53\<close>, as are the
  offsets that \<open>load_row_cnts\<close>, \<open>getDS\<close> and \<open>getRRA\<close> derive from them.
\<close>

lemma built_header_small:
  assumes "RRDHeader bf = Inr h"
  shows "0 \<le> ds_cnt h \<and> ds_cnt h < 2 ^ 32 \<and> 0 \<le> rra_cnt h \<and> rra_cnt h < 2 ^ 32 \<and>
         0 \<le> pdp_step h \<and> pdp_step h < 2 ^ 32 \<and>
         0 \<le> ds_def_idx h \<and> ds_def_idx h \<le> rra_def_idx h \<and>
         rra_def_idx h \<le> live_head_idx h \<and> live_head_idx h \<le> pdp_prep_idx h \<and>
         pdp_prep_idx h \<le> cdp_prep_idx h \<and> cdp_prep_idx h < 2 ^ 41 \<and>
         (\<forall>i. 0 \<le> i \<and> i < rra_cnt h \<longrightarrow>
            0 \<le> rra_def_idx h + i * rra_def_el_size h + row_cnt_idx h \<and>
            rra_def_idx h + i * rra_def_el_size h + row_cnt_idx h < 2 ^ 41) \<and>
         (\<forall>j. 0 \<le> j \<and> j < ds_cnt h \<longrightarrow>
            0 \<le> ds_def_idx h + ds_el_size h * j \<and> ds_def_idx h + ds_el_size h * j < 2 ^ 41)"
proof -
  from assms obtain hv where h: "h = calc_idxs (load_header hv)"
    by (auto simp: RRDHeader_Inr)
  define l where "l = load_header hv"
  have cnt: "0 \<le> ds_cnt l" "ds_cnt l < 2 ^ 32" "0 \<le> rra_cnt l" "rra_cnt l < 2 ^ 32"
    "pdp_step l < 2 ^ 32" "top_header_size l = (if rrd_align l = 32 then 112 else 128)"
    using load_header_small [of hv] by (simp_all add: l_def)
  have step: "0 \<le> pdp_step l"
    by (simp add: l_def load_header_def)
  have rows: "i * (if rrd_align l = 32 then 108 else 120) \<le> rra_cnt l * 120"
    "0 \<le> i * (if rrd_align l = 32 then 108 else 120)" if "0 \<le> i" "i < rra_cnt l" for i :: int
    using that mult_mono [of i "rra_cnt l" "if rrd_align l = 32 then 108 else 120" 120]
    by (simp_all split: if_splits)
  have srcs: "120 * j \<le> 120 * ds_cnt l" "0 \<le> 120 * j" if "0 \<le> j" "j < ds_cnt l" for j :: int
    using that by simp_all
  show ?thesis
    unfolding h l_def [symmetric]
    using cnt step rows srcs
    by (simp add: calc_idxs_offsets(1-5) calc_idxs_sizes)
qed

text \<open>
  The two rounded sections of the header: with non-negative counts \<open>D\<close> and \<open>R\<close>, the
  scratch area of 80 bytes for each pair and the \<open>R\<close> archive pointers of \<open>e\<close> bytes are
  added without rounding when the end is at or below \<open>2 ^ 53\<close>.
\<close>

lemma scratch_sections_exact:
  assumes "0 \<le> D" and "0 \<le> R" and "80 * D \<le> c" and "0 \<le> e"
    and "c + 80 * (D * R) + e * R \<le> 2 ^ 53"
  shows "js_add c (js_mul (js_mul 80 D) R) = c + 80 * (D * R)"
    and "js_add (c + 80 * (D * R)) (js_mul e R) = c + 80 * (D * R) + e * R"
proof -
  define P where "P = 80 * (D * R)"
  define E where "E = e * R"
  define M where "M = 80 * D"
  have nonneg: "0 \<le> P" "0 \<le> E" "0 \<le> M"
    using assms(1,2,4) by (simp_all add: P_def E_def M_def)
  have small: "c + P + E \<le> 2 ^ 53" "M \<le> c"
    using assms(3,5) by (simp_all add: P_def E_def M_def)
  have bounds: "- (2 ^ 53) \<le> M" "M \<le> 2 ^ 53" "- (2 ^ 53) \<le> P" "P \<le> 2 ^ 53"
    "- (2 ^ 53) \<le> c + P" "c + P \<le> 2 ^ 53" "- (2 ^ 53) \<le> E" "E \<le> 2 ^ 53"
    "- (2 ^ 53) \<le> c + P + E" "c + P + E \<le> 2 ^ 53"
    using nonneg small by simp_all
  have r1: "js_mul 80 D = M"
    using bounds(1,2) by (rule js_mul_exactI [OF M_def])
  have "P = M * R"
    by (simp add: P_def M_def)
  then have r2: "js_mul M R = P"
    using bounds(3,4) by (rule js_mul_exactI)
  have r3: "js_add c P = c + P"
    using bounds(5,6) by (rule js_add_exact)
  have r4: "js_mul e R = E"
    using bounds(7,8) by (rule js_mul_exactI [OF E_def])
  have r5: "js_add (c + P) E = c + P + E"
    using bounds(9,10) by (rule js_add_exact)
  show "js_add c (js_mul (js_mul 80 D) R) = c + 80 * (D * R)"
    by (simp only: r1 r2 r3) (simp only: P_def)
  show "js_add (c + 80 * (D * R)) (js_mul e R) = c + 80 * (D * R) + e * R"
    using r5 by (simp only: r4 P_def E_def)
qed

subsection \<open>The loop of \<open>load_row_cnts\<close>\<close>

text \<open>
  The loop changes the two arrays only; at its end the arrays hold, for every archive
  index below \<open>rra_cnt\<close>, the row count read from the byte source and the rounded sum
  of the row counts before that archive.
\<close>

lemma load_row_cnts_body_frame:
  "(load_row_cnts_body h i)\<lparr>rra_def_row_cnts := c, rra_def_row_cnt_sums := s\<rparr>
     = h\<lparr>rra_def_row_cnts := c, rra_def_row_cnt_sums := s\<rparr>"
  by (simp add: load_row_cnts_body_def Let_def)

lemma load_row_cnts_loop_frame:
  "(load_row_cnts_loop h i)\<lparr>rra_def_row_cnts := c, rra_def_row_cnt_sums := s\<rparr>
     = h\<lparr>rra_def_row_cnts := c, rra_def_row_cnt_sums := s\<rparr>"
proof (induction h i rule: load_row_cnts_loop.induct)
  case (1 h i)
  show ?case
  proof (cases "i < rra_cnt h")
    case True
    then have "load_row_cnts_loop h i = load_row_cnts_loop (load_row_cnts_body h i) (i + 1)"
      by (subst load_row_cnts_loop.simps) simp
    then show ?thesis
      using "1.IH" [OF True] by (simp add: load_row_cnts_body_frame)
  next
    case False
    then show ?thesis by (subst load_row_cnts_loop.simps) simp
  qed
qed

lemma load_row_cnts_frame:
  "(load_row_cnts h)\<lparr>rra_def_row_cnts := c, rra_def_row_cnt_sums := s\<rparr>
     = h\<lparr>rra_def_row_cnts := c, rra_def_row_cnt_sums := s\<rparr>"
  by (simp add: load_row_cnts_def load_row_cnts_loop_frame)

lemma frame_fields:
  assumes "h'\<lparr>rra_def_row_cnts := (\<lambda>_. None), rra_def_row_cnt_sums := (\<lambda>_. None)\<rparr>
             = h\<lparr>rra_def_row_cnts := (\<lambda>_. None), rra_def_row_cnt_sums := (\<lambda>_. None)\<rparr>"
  shows "rrd_data h' = rrd_data h" "rrd_version h' = rrd_version h" "rrd_align h' = rrd_align h"
    "ds_cnt h' = ds_cnt h" "rra_cnt h' = rra_cnt h" "pdp_step h' = pdp_step h"
    "ds_def_idx h' = ds_def_idx h" "ds_el_size h' = ds_el_size h"
    "rra_def_idx h' = rra_def_idx h" "row_cnt_idx h' = row_cnt_idx h"
    "rra_def_el_size h' = rra_def_el_size h" "live_head_idx h' = live_head_idx h"
    "rra_ptr_idx h' = rra_ptr_idx h" "rra_ptr_el_size h' = rra_ptr_el_size h"
    "header_size h' = header_size h" "row_cnt_at h' = row_cnt_at h"
proof -
  let ?c = "\<lambda>x::rrdheader. x\<lparr>rra_def_row_cnts := (\<lambda>_. None), rra_def_row_cnt_sums := (\<lambda>_. None)\<rparr>"
  have sel: "f (?c h') = f (?c h)" for f :: "rrdheader \<Rightarrow> 'b"
    using assms by simp
  show "rrd_data h' = rrd_data h" using sel [of rrd_data] by simp
  show "rrd_version h' = rrd_version h" using sel [of rrd_version] by simp
  show "rrd_align h' = rrd_align h" using sel [of rrd_align] by simp
  show "ds_cnt h' = ds_cnt h" using sel [of ds_cnt] by simp
  show "rra_cnt h' = rra_cnt h" using sel [of rra_cnt] by simp
  show "pdp_step h' = pdp_step h" using sel [of pdp_step] by simp
  show "ds_def_idx h' = ds_def_idx h" using sel [of ds_def_idx] by simp
  show "ds_el_size h' = ds_el_size h" using sel [of ds_el_size] by simp
  show "rra_def_idx h' = rra_def_idx h" using sel [of rra_def_idx] by simp
  show "row_cnt_idx h' = row_cnt_idx h" using sel [of row_cnt_idx] by simp
  show "rra_def_el_size h' = rra_def_el_size h" using sel [of rra_def_el_size] by simp
  show "live_head_idx h' = live_head_idx h" using sel [of live_head_idx] by simp
  show "rra_ptr_idx h' = rra_ptr_idx h" using sel [of rra_ptr_idx] by simp
  show "rra_ptr_el_size h' = rra_ptr_el_size h" using sel [of rra_ptr_el_size] by simp
  show "header_size h' = header_size h" using sel [of header_size] by simp
  show "row_cnt_at h' = row_cnt_at h"
    using sel [of row_cnt_at] by (simp add: row_cnt_at_def fun_eq_iff)
qed

lemmas load_row_cnts_body_keeps = frame_fields [OF load_row_cnts_body_frame]
lemmas load_row_cnts_loop_keeps = frame_fields [OF load_row_cnts_loop_frame]
lemmas load_row_cnts_keeps = frame_fields [OF load_row_cnts_frame]

lemma load_row_cnts_body_cnts:
  "rra_def_row_cnts (load_row_cnts_body h i) k
     = (if k = i then Some (row_cnt_at h i) else rra_def_row_cnts h k)"
  by (simp add: load_row_cnts_body_def Let_def)

lemma load_row_cnts_body_sums:
  "rra_def_row_cnt_sums (load_row_cnts_body h i) k
     = (if k = i then
          (if i = 0 then Some 0
           else js_plus (rra_def_row_cnt_sums h (i - 1)) (rra_def_row_cnts h (i - 1)))
        else rra_def_row_cnt_sums h k)"
  by (simp add: load_row_cnts_body_def Let_def)

lemma load_row_cnts_loop_cnts:
  "rra_def_row_cnts (load_row_cnts_loop h i) k
     = (if i \<le> k \<and> k < rra_cnt h then Some (row_cnt_at h k) else rra_def_row_cnts h k)"
proof (induction h i rule: load_row_cnts_loop.induct)
  case (1 h i)
  show ?case
  proof (cases "i < rra_cnt h")
    case True
    then have "load_row_cnts_loop h i = load_row_cnts_loop (load_row_cnts_body h i) (i + 1)"
      by (subst load_row_cnts_loop.simps) simp
    then show ?thesis
      using "1.IH" [OF True] True
      by (auto simp: load_row_cnts_body_keeps load_row_cnts_body_cnts)
  next
    case False
    then show ?thesis by (subst load_row_cnts_loop.simps) auto
  qed
qed

lemma rows_before_0 [simp]: "rows_before h 0 = 0"
  by (simp add: rows_before_def)





lemma load_row_cnts_loop_sums:
  assumes "i = 0 \<or> (0 < i \<and> rra_def_row_cnt_sums h (i - 1) = Some (js_rows_before h (nat (i - 1)))
                       \<and> rra_def_row_cnts h (i - 1) = Some (row_cnt_at h (i - 1)))"
  shows "rra_def_row_cnt_sums (load_row_cnts_loop h i) k
     = (if i \<le> k \<and> k < rra_cnt h then Some (js_rows_before h (nat k))
        else rra_def_row_cnt_sums h k)"
  using assms
proof (induction h i rule: load_row_cnts_loop.induct)
  case (1 h i)
  show ?case
  proof (cases "i < rra_cnt h")
    case True
    let ?b = "load_row_cnts_body h i"
    have unfold: "load_row_cnts_loop h i = load_row_cnts_loop ?b (i + 1)"
      using True by (subst load_row_cnts_loop.simps) simp
    have nonneg: "0 \<le> i" using "1.prems" by auto
    have sum_i: "rra_def_row_cnt_sums ?b i = Some (js_rows_before h (nat i))"
    proof (cases "i = 0")
      case True
      then show ?thesis by (simp add: load_row_cnts_body_sums)
    next
      case False
      with "1.prems" have prev:
        "rra_def_row_cnt_sums h (i - 1) = Some (js_rows_before h (nat (i - 1)))"
        "rra_def_row_cnts h (i - 1) = Some (row_cnt_at h (i - 1))" "0 < i"
        by auto
      have "nat i = Suc (nat (i - 1))" "int (nat (i - 1)) = i - 1"
        using prev(3) by simp_all
      then have "js_rows_before h (nat i)
          = js_add (js_rows_before h (nat (i - 1))) (row_cnt_at h (i - 1))"
        by simp
      then show ?thesis
        using False prev by (simp add: load_row_cnts_body_sums js_plus_def)
    qed
    have rb: "js_rows_before ?b n = js_rows_before h n" for n
      by (induction n) (simp_all add: load_row_cnts_body_keeps)
    have pre: "i + 1 = 0 \<or> (0 < i + 1 \<and>
        rra_def_row_cnt_sums ?b (i + 1 - 1) = Some (js_rows_before ?b (nat (i + 1 - 1))) \<and>
        rra_def_row_cnts ?b (i + 1 - 1) = Some (row_cnt_at ?b (i + 1 - 1)))"
      using nonneg sum_i by (simp add: rb load_row_cnts_body_cnts load_row_cnts_body_keeps)
    have "rra_def_row_cnt_sums (load_row_cnts_loop ?b (i + 1)) k
        = (if i + 1 \<le> k \<and> k < rra_cnt ?b then Some (js_rows_before ?b (nat k))
           else rra_def_row_cnt_sums ?b k)"
      using "1.IH" [OF True pre] .
    then show ?thesis
      using True sum_i unfold
      by (auto simp: rb load_row_cnts_body_keeps load_row_cnts_body_sums)
  next
    case False
    then show ?thesis by (subst load_row_cnts_loop.simps) auto
  qed
qed

lemma load_row_cnts_cnts:
  "rra_def_row_cnts (load_row_cnts h) k
     = (if 0 \<le> k \<and> k < rra_cnt h then Some (row_cnt_at h k) else None)"
proof -
  let ?h0 = "h\<lparr>rra_def_row_cnts := (\<lambda>_. None), rra_def_row_cnt_sums := (\<lambda>_. None)\<rparr>"
  have "row_cnt_at ?h0 = row_cnt_at h"
    by (simp add: row_cnt_at_def fun_eq_iff)
  then show ?thesis
    by (simp add: load_row_cnts_def load_row_cnts_loop_cnts)
qed

lemma load_row_cnts_sums:
  "rra_def_row_cnt_sums (load_row_cnts h) k
     = (if 0 \<le> k \<and> k < rra_cnt h then Some (js_rows_before h (nat k)) else None)"
proof -
  let ?h0 = "h\<lparr>rra_def_row_cnts := (\<lambda>_. None), rra_def_row_cnt_sums := (\<lambda>_. None)\<rparr>"
  have "row_cnt_at ?h0 = row_cnt_at h"
    by (simp add: row_cnt_at_def fun_eq_iff)
  then have "js_rows_before ?h0 n = js_rows_before h n" for n
    by (induction n) simp_all
  then show ?thesis
    by (simp add: load_row_cnts_def load_row_cnts_loop_sums)
qed

subsection \<open>The file object\<close>

lemma validate_rrd_Inr:
  assumes "validate_rrd h = Inr hv"
  shows "rrd_data hv = rrd_data h" and "rrd_align hv = 32 \<or> rrd_align hv = 64"
  using assms by (auto simp: validate_rrd_def Let_def split: if_splits)

lemma RRDFile_Inr:
  assumes "RRDFile bf = Inr f"
  obtains hv where "validate_rrd (new_header bf) = Inr hv"
    and "f = \<lparr>f_rrd_data = bf, rrd_header = load_row_cnts (calc_idxs (load_header hv))\<rparr>"
  using assms by (auto simp: RRDFile_def RRDHeader_def split: sum.splits)

text \<open>
  Every archive index in range has its row count and prefix sum, so \<open>getRRA\<close> on a
  file built by \<open>RRDFile\<close> never meets a missing array entry, and the view it returns
  is made of the header's offsets, the row count read from the byte source and the
  rounded prefix sum.
\<close>

lemma getRRA_built:
  assumes "0 \<le> idx" and "idx < rra_cnt h0"
  shows "getRRA \<lparr>f_rrd_data = bf, rrd_header = load_row_cnts h0\<rparr> idx
           = Inr (RRDRRA bf (rrd_align h0) (rra_def_idx h0 + idx * rra_def_el_size h0)
                    (js_add (rra_ptr_idx h0) (js_mul idx (rra_ptr_el_size h0)))
                    (header_size h0) (row_cnt_at h0 idx) (js_rows_before h0 (nat idx))
                    (ds_cnt h0) (pdp_step h0))"
  using assms
  by (simp add: getRRA_def Let_def load_row_cnts_keeps load_row_cnts_cnts load_row_cnts_sums)

lemma getDS_built: "getDS (load_row_cnts h0) j = getDS h0 j"
  by (simp add: getDS_def load_row_cnts_keeps)

text \<open>
  A view that \<open>getRRA\<close> returns has a row count, a head row and a count of data
  sources below \<open>2 ^ 32\<close>, so the sum in \<open>real_row_idx\<close> is below \<open>2 ^ 33\<close> behind the guard
  of \<open>calc_idx\<close>.
\<close>

lemma built_view_small:
  assumes "RRDFile bf = Inr f" and "getRRA f idx = Inr v"
  shows "0 \<le> v_row_cnt v \<and> v_row_cnt v < 2 ^ 32 \<and> 0 \<le> v_cur_row v \<and> v_cur_row v < 2 ^ 32 \<and>
         0 \<le> v_ds_cnt v \<and> v_ds_cnt v < 2 ^ 32"
proof -
  from assms(1) obtain hv where hv: "validate_rrd (new_header bf) = Inr hv"
    and f: "f = \<lparr>f_rrd_data = bf, rrd_header = load_row_cnts (calc_idxs (load_header hv))\<rparr>"
    by (rule RRDFile_Inr)
  define h0 where "h0 = calc_idxs (load_header hv)"
  have f': "f = \<lparr>f_rrd_data = bf, rrd_header = load_row_cnts h0\<rparr>"
    by (simp add: f h0_def)
  have range: "0 \<le> idx" "idx < rra_cnt h0"
    using assms(2) by (auto simp: f' getRRA_def Let_def load_row_cnts_keeps split: if_splits)
  have v: "v = RRDRRA bf (rrd_align h0) (rra_def_idx h0 + idx * rra_def_el_size h0)
                    (js_add (rra_ptr_idx h0) (js_mul idx (rra_ptr_el_size h0)))
                    (header_size h0) (row_cnt_at h0 idx) (js_rows_before h0 (nat idx))
                    (ds_cnt h0) (pdp_step h0)"
    using assms(2) getRRA_built [OF range, of bf] by (simp add: f')
  have cnt: "0 \<le> ds_cnt h0" "ds_cnt h0 < 2 ^ 32"
    using load_header_small(1) [of hv] by (simp_all add: h0_def)
  have rows: "0 \<le> row_cnt_at h0 idx" "row_cnt_at h0 idx < 2 ^ 32"
    using uint_lt2p [of "getLongAt (rrd_data h0)
        (rra_def_idx h0 + idx * rra_def_el_size h0 + row_cnt_idx h0)"]
    by (simp_all add: row_cnt_at_def)
  have head: "uint (getLongAt bf p) < 2 ^ 32" for p
    using uint_lt2p [of "getLongAt bf p"] by simp
  show ?thesis
    using cnt rows head by (simp add: v)
qed

subsection \<open>The sample archives\<close>

text \<open>
  A byte source with the magic marker, version 0003 and the sentinel at offset 12 gives
  a header in the 32-bit layout.
\<close>

lemma version3_built:
  assumes "getCStringAt bf 0 4 = ''RRD''" and "getCStringAt bf 4 5 = ''0003''"
    and "getDoubleAt bf 12 = sentinel"
  shows "RRDHeader bf
           = Inr (calc_idxs (load_header ((new_header bf)\<lparr>rrd_version := ''0003'', rrd_align := 32\<rparr>)))"
    and "RRDFile bf
           = Inr \<lparr>f_rrd_data = bf,
                  rrd_header = load_row_cnts (calc_idxs (load_header
                    ((new_header bf)\<lparr>rrd_version := ''0003'', rrd_align := 32\<rparr>)))\<rparr>"
proof -
  have "validate_rrd (new_header bf)
      = Inr ((new_header bf)\<lparr>rrd_version := ''0003'', rrd_align := 32\<rparr>)"
    using assms by (simp add: validate_rrd_align js_eq_sentinel)
  then show "RRDHeader bf
           = Inr (calc_idxs (load_header ((new_header bf)\<lparr>rrd_version := ''0003'', rrd_align := 32\<rparr>)))"
    and "RRDFile bf
           = Inr \<lparr>f_rrd_data = bf,
                  rrd_header = load_row_cnts (calc_idxs (load_header
                    ((new_header bf)\<lparr>rrd_version := ''0003'', rrd_align := 32\<rparr>)))\<rparr>"
    by (simp_all add: RRDFile_def RRDHeader_def)
qed

lemma layout_32:
  fixes bf ver
  defines "h0 \<equiv> calc_idxs (load_header ((new_header bf)\<lparr>rrd_version := ver, rrd_align := 32\<rparr>))"
  shows "rrd_data h0 = bf" "rrd_align h0 = 32"
    "ds_cnt h0 = uint (getLongAt bf 20)" "rra_cnt h0 = uint (getLongAt bf 24)"
    "pdp_step h0 = uint (getLongAt bf 28)"
    "ds_def_idx h0 = 112" "ds_el_size h0 = 120"
    "rra_def_idx h0 = 112 + 120 * uint (getLongAt bf 20)"
    "rra_def_el_size h0 = 108" "row_cnt_idx h0 = 20"
    "live_head_idx h0 = 112 + 120 * uint (getLongAt bf 20) + 108 * uint (getLongAt bf 24)"
    "pdp_prep_idx h0 = 120 + 120 * uint (getLongAt bf 20) + 108 * uint (getLongAt bf 24)"
    "cdp_prep_idx h0 = 120 + 232 * uint (getLongAt bf 20) + 108 * uint (getLongAt bf 24)"
    "rra_ptr_idx h0
       = js_add (cdp_prep_idx h0)
           (js_mul (js_mul 80 (uint (getLongAt bf 20))) (uint (getLongAt bf 24)))"
    "rra_ptr_el_size h0 = 4"
    "header_size h0 = js_add (rra_ptr_idx h0) (js_mul 4 (uint (getLongAt bf 24)))"
  by (simp_all add: h0_def calc_idxs_offsets calc_idxs_sizes load_header_def)

lemma sample_RRDFile:
  "RRDHeader sample_bf = Inr sample_header"
  "RRDFile sample_bf = Inr sample_file"
  "RRDFile three_rra_bf = Inr three_rra_file"
  "RRDHeader maxcount_bf = Inr maxcount_header"
  "RRDFile manyrows_bf = Inr manyrows_file"
proof -
  have ok: "getCStringAt sample_bf 0 4 = ''RRD''" "getCStringAt sample_bf 4 5 = ''0003''"
    "getDoubleAt sample_bf 12 = sentinel"
    "getCStringAt three_rra_bf 0 4 = ''RRD''" "getCStringAt three_rra_bf 4 5 = ''0003''"
    "getDoubleAt three_rra_bf 12 = sentinel"
    "getCStringAt maxcount_bf 0 4 = ''RRD''" "getCStringAt maxcount_bf 4 5 = ''0003''"
    "getDoubleAt maxcount_bf 12 = sentinel"
    "getCStringAt manyrows_bf 0 4 = ''RRD''" "getCStringAt manyrows_bf 4 5 = ''0003''"
    "getDoubleAt manyrows_bf 12 = sentinel"
    by (simp_all add: sample_bf_def three_rra_bf_def maxcount_bf_def manyrows_bf_def)
  show "RRDHeader sample_bf = Inr sample_header"
    using version3_built(1) [OF ok(1-3)] by (simp add: sample_header_def)
  show "RRDFile sample_bf = Inr sample_file"
    using version3_built(2) [OF ok(1-3)] by (simp add: sample_file_def sample_header_def)
  show "RRDFile three_rra_bf = Inr three_rra_file"
    using version3_built(2) [OF ok(4-6)] by (simp add: three_rra_file_def three_rra_header_def)
  show "RRDHeader maxcount_bf = Inr maxcount_header"
    using version3_built(1) [OF ok(7-9)] by (simp add: maxcount_header_def)
  show "RRDFile manyrows_bf = Inr manyrows_file"
    using version3_built(2) [OF ok(10-12)] by (simp add: manyrows_file_def manyrows_header_def)
qed

lemma sample_header_fields:
  "rrd_data sample_header = sample_bf" "rrd_align sample_header = 32"
  "ds_cnt sample_header = 2" "rra_cnt sample_header = 1" "pdp_step sample_header = 300"
  "ds_def_idx sample_header = 112" "rra_def_idx sample_header = 352"
  "rra_def_el_size sample_header = 108" "row_cnt_idx sample_header = 20"
  "live_head_idx sample_header = 460" "pdp_prep_idx sample_header = 468"
  "cdp_prep_idx sample_header = 692" "rra_ptr_idx sample_header = 852"
  "rra_ptr_el_size sample_header = 4" "header_size sample_header = 856"
  using layout_32 [where bf = sample_bf and ver = "''0003''", folded sample_header_def]
  by (simp_all add: sample_bf_def js_exact)

text \<open>The views of the sample archives are the ones \<open>getRRA\<close> returns.\<close>

lemma sample_getRRA: "getRRA sample_file 0 = Inr sample_view"
proof -
  have "row_cnt_at sample_header 0 = 10"
    by (simp add: row_cnt_at_def sample_header_fields sample_bf_def)
  then show ?thesis
    unfolding sample_file_def
    by (simp add: getRRA_built sample_header_fields sample_view_def js_exact)
qed

lemma stale_getRRA:
  "\<exists>f. RRDFile stale_bf = Inr f \<and> getRRA f 0 = Inr (RRDRRA stale_bf 32 352 852 856 10 0 2 300)"
proof -
  define h0 where
    "h0 = calc_idxs (load_header ((new_header stale_bf)\<lparr>rrd_version := ''0003'', rrd_align := 32\<rparr>))"
  have built: "RRDFile stale_bf = Inr \<lparr>f_rrd_data = stale_bf, rrd_header = load_row_cnts h0\<rparr>"
    unfolding h0_def by (rule version3_built) (simp_all add: stale_bf_def sample_bf_def)
  have fields: "rrd_align h0 = 32" "ds_cnt h0 = 2" "rra_cnt h0 = 1" "pdp_step h0 = 300"
    "rra_def_idx h0 = 352" "rra_def_el_size h0 = 108" "rra_ptr_idx h0 = 852"
    "rra_ptr_el_size h0 = 4" "header_size h0 = 856"
    "rrd_data h0 = stale_bf" "row_cnt_idx h0 = 20"
    using layout_32 [where bf = stale_bf and ver = "''0003''", folded h0_def]
    by (simp_all add: stale_bf_def sample_bf_def js_exact)
  have "row_cnt_at h0 0 = 10"
    by (simp add: row_cnt_at_def fields stale_bf_def sample_bf_def)
  then have "getRRA \<lparr>f_rrd_data = stale_bf, rrd_header = load_row_cnts h0\<rparr> 0
      = Inr (RRDRRA stale_bf 32 352 852 856 10 0 2 300)"
    by (simp add: getRRA_built fields js_exact)
  with built show ?thesis by blast
qed

lemma big_getRRA: "\<exists>f. RRDFile big_bf = Inr f \<and> getRRA f 0 = Inr big_view"
proof -
  define h0 where
    "h0 = calc_idxs (load_header ((new_header big_bf)\<lparr>rrd_version := ''0003'', rrd_align := 32\<rparr>))"
  have built: "RRDFile big_bf = Inr \<lparr>f_rrd_data = big_bf, rrd_header = load_row_cnts h0\<rparr>"
    unfolding h0_def by (rule version3_built) (simp_all add: big_bf_def)
  have fields: "rrd_align h0 = 32" "ds_cnt h0 = 134217729" "rra_cnt h0 = 1" "pdp_step h0 = 300"
    "rra_def_idx h0 = 16106127592" "rra_def_el_size h0 = 108" "rra_ptr_idx h0 = 41875931676"
    "rra_ptr_el_size h0 = 4" "header_size h0 = 41875931680"
    "rrd_data h0 = big_bf" "row_cnt_idx h0 = 20"
    using layout_32 [where bf = big_bf and ver = "''0003''", folded h0_def]
    by (simp_all add: big_bf_def js_exact)
  have "row_cnt_at h0 0 = 268435456"
    by (simp add: row_cnt_at_def fields big_bf_def)
  then have "getRRA \<lparr>f_rrd_data = big_bf, rrd_header = load_row_cnts h0\<rparr> 0 = Inr big_view"
    by (simp add: getRRA_built fields big_view_def js_exact)
  with built show ?thesis by blast
qed

lemma three_rra_fields:
  "rrd_data three_rra_header = three_rra_bf" "rrd_align three_rra_header = 32"
  "ds_cnt three_rra_header = 1" "rra_cnt three_rra_header = 3"
  "pdp_step three_rra_header = 300" "ds_def_idx three_rra_header = 112"
  "ds_el_size three_rra_header = 120" "rra_def_idx three_rra_header = 232"
  "rra_def_el_size three_rra_header = 108" "row_cnt_idx three_rra_header = 20"
  "rra_ptr_idx three_rra_header = 916" "rra_ptr_el_size three_rra_header = 4"
  "header_size three_rra_header = 928"
  using layout_32 [where bf = three_rra_bf and ver = "''0003''", folded three_rra_header_def]
  by (simp_all add: three_rra_bf_def js_exact)

lemma three_rra_rows:
  "row_cnt_at three_rra_header 0 = 10" "row_cnt_at three_rra_header 1 = 20"
  "row_cnt_at three_rra_header 2 = 30"
  by (simp_all add: row_cnt_at_def three_rra_fields three_rra_bf_def)





section \<open>The circular mapping of rows\<close>

text \<open>
  The sample archive with the head pointer 13 has ten rows. Its newest logical row 9 is
  read from physical row 13, at byte 856 + 16 * 13 = 1064, where
  \<open>(logicalRow + headRow + 1) mod rowCount\<close> is row 3, at byte 904. In the archive with
  \<open>2 ^ 27 + 1\<close> data sources and \<open>2 ^ 28\<close> rows the head row 3 is in range and logical
  row 134217725 is physical row 134217729, whose first sample is at byte
  144115232099271208; the offset within the sample area is rounded, and the read goes to
  byte 144115232099271200, the last sample of physical row 134217728.
\<close>

theorem element_physical_row_counterexample:
  "0 < v_row_cnt (RRDRRA stale_bf 32 352 852 856 10 0 2 300) \<and>
   (0::int) \<le> 9 \<and> 9 < v_row_cnt (RRDRRA stale_bf 32 352 852 856 10 0 2 300) \<and>
   calc_idx (RRDRRA stale_bf 32 352 852 856 10 0 2 300) 9 0 = Inr (16 * 13 + 0 * 8) \<and>
   (9 + v_cur_row (RRDRRA stale_bf 32 352 852 856 10 0 2 300) + 1)
      mod v_row_cnt (RRDRRA stale_bf 32 352 852 856 10 0 2 300) = 3 \<and>
   getEl (RRDRRA stale_bf 32 352 852 856 10 0 2 300) 9 0 = Inr 1064 \<and>
   getEl (RRDRRA stale_bf 32 352 852 856 10 0 2 300) 9 0 \<noteq> Inr (856 + 16 * 3 + 0 * 8) \<and>
   v_row_cnt big_view = 268435456 \<and> v_ds_cnt big_view = 134217729 \<and>
   v_cur_row big_view = 3 \<and> v_header_size big_view = 41875931680 \<and>
   v_prev_row_cnts big_view = 0 \<and>
   (134217725 + v_cur_row big_view + 1) mod v_row_cnt big_view = 134217729 \<and>
   41875931680 + 134217729 * 8 * 134217729 + 0 * 8 = (144115232099271208 :: int) \<and>
   41875931680 + 134217729 * 8 * 134217728 + 134217728 * 8 = (144115232099271200 :: int) \<and>
   getEl big_view 134217725 0 = Inr 144115232099271200 \<and>
   getEl big_view 134217725 0 \<noteq> Inr 144115232099271208"
proof -
  let ?s = "RRDRRA stale_bf 32 352 852 856 10 0 2 300"
  have stale: "uint (getLongAt stale_bf 852) = 13"
    by (simp add: stale_bf_def sample_bf_def)
  have s_row: "real_row_idx ?s 9 = 13"
    by (simp add: real_row_idx_def stale)
  have s_off: "calc_idx ?s 9 0 = Inr 208"
    by (simp add: calc_idx_def s_row js_exact)
  have s_base: "v_base_rrd_db_idx ?s = 856"
    by (simp add: js_exact)
  have s_read: "getEl ?s 9 0 = Inr 1064"
    by (simp add: getEl_def s_off s_base js_exact) (simp add: stale_bf_def sample_bf_def)
  have big: "v_cur_row big_view = 3" "v_row_cnt big_view = 268435456"
    "v_ds_cnt big_view = 134217729" "v_header_size big_view = 41875931680"
    "v_prev_row_cnts big_view = 0"
    by (simp_all add: big_view_def big_bf_def RRDRRA_def Let_def)
  have row: "real_row_idx big_view 134217725 = 134217729"
    by (simp add: real_row_idx_def big)
  have off: "calc_idx big_view 134217725 0 = Inr 144115190223339520"
    by (simp add: calc_idx_def big row) (simp add: big_view_def js_eval)
  have base: "v_base_rrd_db_idx big_view = 41875931680"
    by (simp add: big_view_def js_eval)
  have read: "getEl big_view 134217725 0 = Inr 144115232099271200"
    by (simp add: getEl_def off base) (simp add: big_view_def big_bf_def js_eval)
  show ?thesis
    by (simp add: stale s_off s_read big read)
qed

text \<open>
  Claim C1, amended: for every archive view with row count \<open>rc > 0\<close> whose head pointer
  read from the byte source is below \<open>rc\<close> and whose sample area ends at or below byte
  \<open>2 ^ 53\<close>, and every logical row \<open>0 \<le> row_idx < rc\<close> and data source \<open>0 \<le> ds_idx < dc\<close>,
  \<open>getEl\<close> reads physical row \<open>(row_idx + headRow + 1) mod rc\<close>; logical row 0 is the
  row after the head (the oldest sample) and logical row \<open>rc - 1\<close> is the head row itself
  (the most recent).
\<close>

theorem element_physical_row:
  fixes bf al d p hs rc prev dc st
  defines "v \<equiv> RRDRRA bf al d p hs rc prev dc st"
  defines "head \<equiv> uint (getLongAt bf p)"
  assumes "0 < rc" and "head < rc"
    and "0 \<le> row_idx" and "row_idx < rc" and "0 \<le> ds_idx" and "ds_idx < dc"
    and "0 \<le> hs" and "0 \<le> prev" and "hs + prev * (dc * 8) + dc * 8 * rc \<le> 2 ^ 53"
  shows "calc_idx v row_idx ds_idx
           = Inr (dc * 8 * ((row_idx + head + 1) mod rc) + ds_idx * 8) \<and>
         getEl v row_idx ds_idx
           = Inr (getDoubleAt bf (hs + prev * (dc * 8)
                    + dc * 8 * ((row_idx + head + 1) mod rc) + ds_idx * 8)) \<and>
         real_row_idx v 0 = (head + 1) mod rc \<and>
         real_row_idx v (rc - 1) = head"
proof -
  have cur: "v_cur_row v = head" "0 \<le> v_cur_row v" "v_cur_row v < v_row_cnt v"
    "v_row_cnt v = rc" "v_rrd_data v = bf"
    using assms by (simp_all add: v_def head_def)
  have off: "calc_idx v row_idx ds_idx
      = Inr (dc * 8 * ((row_idx + head + 1) mod rc) + ds_idx * 8)"
    unfolding v_def head_def
    using assms(5-8) assms(4) [unfolded head_def] assms(9-11) by (rule sample_offset_exact(1))
  have byte: "js_add (v_base_rrd_db_idx v) (dc * 8 * ((row_idx + head + 1) mod rc) + ds_idx * 8)
      = hs + prev * (dc * 8) + dc * 8 * ((row_idx + head + 1) mod rc) + ds_idx * 8"
    unfolding v_def head_def
    using assms(5-8) assms(4) [unfolded head_def] assms(9-11) by (rule sample_offset_exact(2))
  have el: "getEl v row_idx ds_idx
      = Inr (getDoubleAt bf (hs + prev * (dc * 8)
               + dc * 8 * ((row_idx + head + 1) mod rc) + ds_idx * 8))"
    by (simp only: getEl_def off sum.case byte cur(5))
  have zero: "real_row_idx v 0 = (head + 1) mod rc"
    using real_row_idx_mod [of 0 v] cur assms(3) by simp
  have last: "real_row_idx v (rc - 1) = head"
    using real_row_idx_last [of v] cur by simp
  from off el zero last show ?thesis by simp
qed

text \<open>
  With ten rows and head row 3: logical row 9 is read from physical row 3 and logical
  row 0 from physical row 4.
\<close>

theorem element_physical_row_witness:
  "calc_idx sample_view 9 0 = Inr (16 * 3 + 0 * 8) \<and> getEl sample_view 9 0 = Inr 904 \<and>
   calc_idx sample_view 0 1 = Inr (16 * 4 + 1 * 8) \<and> getEl sample_view 0 1 = Inr 928 \<and>
   real_row_idx sample_view 0 = 4 \<and> real_row_idx sample_view (10 - 1) = 3"
proof -
  have head: "uint (getLongAt sample_bf 852) = 3"
    by (simp add: sample_bf_def)
  have read: "getDoubleAt sample_bf 904 = 904" "getDoubleAt sample_bf 928 = 928"
    by (simp_all add: sample_bf_def)
  show ?thesis
    using element_physical_row [where bf = sample_bf and al = 32 and d = 352 and p = 852
          and hs = 856 and rc = 10 and prev = 0 and dc = 2 and st = 300
          and row_idx = 9 and ds_idx = 0]
      element_physical_row [where bf = sample_bf and al = 32 and d = 352 and p = 852
          and hs = 856 and rc = 10 and prev = 0 and dc = 2 and st = 300
          and row_idx = 0 and ds_idx = 1]
    unfolding sample_view_def [symmetric] by (simp add: head read)
qed

text \<open>
  Claim C10: the constructor stores whatever head row the byte source holds at the
  archive pointer. When that value is below the row count, every logical row in range
  maps to a physical row in range, equal to \<open>(row_idx + headRow + 1) mod rc\<close>; when it is
  not, the single subtraction leaves the last logical row at physical row \<open>headRow\<close>,
  at or beyond the row count.
\<close>

theorem head_row_unchecked:
  fixes bf al d p hs rc prev dc st
  defines "v \<equiv> RRDRRA bf al d p hs rc prev dc st"
  shows "v_cur_row v = uint (getLongAt bf p) \<and>
         (v_cur_row v < rc \<longrightarrow>
            (\<forall>row_idx. 0 \<le> row_idx \<and> row_idx < rc \<longrightarrow>
               0 \<le> real_row_idx v row_idx \<and> real_row_idx v row_idx < rc \<and>
               real_row_idx v row_idx = (row_idx + v_cur_row v + 1) mod rc)) \<and>
         (0 < rc \<and> rc \<le> v_cur_row v \<longrightarrow>
            0 \<le> rc - 1 \<and> rc - 1 < rc \<and> rc \<le> real_row_idx v (rc - 1))"
proof -
  have cur: "v_cur_row v = uint (getLongAt bf p)" "0 \<le> v_cur_row v" "v_row_cnt v = rc"
    by (simp_all add: v_def)
  have in_range: "0 \<le> real_row_idx v row_idx \<and> real_row_idx v row_idx < rc \<and>
      real_row_idx v row_idx = (row_idx + v_cur_row v + 1) mod rc"
    if "v_cur_row v < rc" "0 \<le> row_idx" "row_idx < rc" for row_idx
  proof -
    have "real_row_idx v row_idx = (row_idx + v_cur_row v + 1) mod rc"
      using real_row_idx_mod [of row_idx v] that cur by simp
    moreover have "0 < rc" using that by simp
    ultimately show ?thesis by simp
  qed
  have last: "real_row_idx v (rc - 1) = v_cur_row v"
    using real_row_idx_last [of v] cur by simp
  from cur(1) in_range last show ?thesis by simp
qed

text \<open>
  The sample archive (head row 3 of 10) and the one with head row 13.
\<close>

theorem head_row_unchecked_witness:
  "real_row_idx sample_view 9 = (9 + 3 + 1) mod 10 \<and> real_row_idx sample_view 9 < 10 \<and>
   v_cur_row (RRDRRA stale_bf 32 352 852 856 10 0 2 300) = 13 \<and>
   10 \<le> real_row_idx (RRDRRA stale_bf 32 352 852 856 10 0 2 300) (10 - 1)"
proof -
  have a: "v_cur_row sample_view = 3" "v_cur_row sample_view < 10"
    by (simp_all add: sample_view_def sample_bf_def)
  have b: "v_cur_row (RRDRRA stale_bf 32 352 852 856 10 0 2 300) = 13"
    by (simp add: stale_bf_def sample_bf_def)
  show ?thesis
    using head_row_unchecked [of sample_bf 32 352 852 856 10 0 2 300] a
      head_row_unchecked [of stale_bf 32 352 852 856 10 0 2 300] b
    unfolding sample_view_def [symmetric] by simp
qed

section \<open>Bounds checks of element reads\<close>

text \<open>
  Claim C2: every range error names the offending value and the valid range. In the
  sample archive (ten rows, two data sources) the read \<open>getEl 3 7\<close> has a valid row and
  the data source index 7 out of range; the message reports the row index 3 as the
  offending data source index.
\<close>

theorem getEl_ds_idx_message:
  "v_row_cnt sample_view = 10 \<and> v_ds_cnt sample_view = 2 \<and>
   getEl sample_view 3 7 = Inl (RangeError ''DS idx (3) out of range [0-2).'')"
  by (simp add: sample_view_def getEl_def calc_idx_def ToString_def num_str_def digit_def)

text \<open>
  Claim C3: \<open>getEl\<close> returns a value for every pair with \<open>0 \<le> row_idx < getNrRows\<close> and
  \<open>0 \<le> ds_idx < getNrDSs\<close>, and throws a \<open>RangeError\<close> when the row index or the data
  source index is negative or not below its count. The call leaves the file, its header
  and the view as they were, so a later read on the same view gives what it would have
  given before.
\<close>

theorem element_bounds:
  fixes bf al d p hs rc prev dc st
  defines "v \<equiv> RRDRRA bf al d p hs rc prev dc st"
  shows "(0 \<le> row_idx \<and> row_idx < getNrRows v \<and> 0 \<le> ds_idx \<and> ds_idx < rra_getNrDSs v
            \<longrightarrow> (\<exists>x. getEl v row_idx ds_idx = Inr x)) \<and>
         (row_idx < 0 \<or> getNrRows v \<le> row_idx \<or> ds_idx < 0 \<or> rra_getNrDSs v \<le> ds_idx
            \<longrightarrow> (\<exists>msg. getEl v row_idx ds_idx = Inl (RangeError msg))) \<and>
         snd (call_getEl (f, v) row_idx ds_idx) = (f, v) \<and>
         fst (call_getEl (snd (call_getEl (f, v) row_idx ds_idx)) row_idx' ds_idx')
           = getEl v row_idx' ds_idx'"
  by (auto simp: getEl_def calc_idx_def call_getEl_def getNrRows_def rra_getNrDSs_def)

text \<open>
  On the sample archive: one valid read, the four kinds of bounds failure, and a valid
  read after a failed one.
\<close>

theorem element_bounds_witness:
  "(\<exists>x. getEl sample_view 9 1 = Inr x) \<and>
   (\<exists>msg. getEl sample_view 10 0 = Inl (RangeError msg)) \<and>
   (\<exists>msg. getEl sample_view (- 1) 0 = Inl (RangeError msg)) \<and>
   (\<exists>msg. getEl sample_view 0 2 = Inl (RangeError msg)) \<and>
   (\<exists>msg. getEl sample_view 0 (- 1) = Inl (RangeError msg)) \<and>
   snd (call_getEl (sample_file, sample_view) 10 0) = (sample_file, sample_view) \<and>
   fst (call_getEl (snd (call_getEl (sample_file, sample_view) 10 0)) 9 1)
     = getEl sample_view 9 1"
  using element_bounds [of 9 sample_bf 32 352 852 856 10 0 2 300 1 sample_file 9 1]
    element_bounds [of 10 sample_bf 32 352 852 856 10 0 2 300 0 sample_file 9 1]
    element_bounds [of "- 1" sample_bf 32 352 852 856 10 0 2 300 0 sample_file 9 1]
    element_bounds [of 0 sample_bf 32 352 852 856 10 0 2 300 2 sample_file 9 1]
    element_bounds [of 0 sample_bf 32 352 852 856 10 0 2 300 "- 1" sample_file 9 1]
  unfolding sample_view_def [symmetric]
  by (simp add: getNrRows_def rra_getNrDSs_def sample_view_def call_getEl_def)

text \<open>
  In the archive with \<open>2 ^ 27 + 1\<close> data sources and \<open>2 ^ 28\<close> rows the pair of logical row
  134217725 and data source 1 is valid and the head row is in range. Both reads go to
  byte 144115232099271200, the byte of data source 0 as well; the offset formula gives
  byte 144115232099271216.
\<close>

theorem getEl_getElFast_same_offset_counterexample:
  "(0::int) \<le> 134217725 \<and> 134217725 < getNrRows big_view \<and>
   (0::int) \<le> 1 \<and> 1 < rra_getNrDSs big_view \<and> v_cur_row big_view < getNrRows big_view \<and>
   getEl big_view 134217725 1 = Inr (getDoubleAt big_bf 144115232099271200) \<and>
   getElFast big_view 134217725 1 = Inr (getFastDoubleAt big_bf 144115232099271200) \<and>
   v_header_size big_view + v_prev_row_cnts big_view * (v_ds_cnt big_view * 8)
     + v_ds_cnt big_view * 8 * ((134217725 + v_cur_row big_view + 1) mod v_row_cnt big_view)
     + 1 * 8 = 144115232099271216"
proof -
  have big: "v_cur_row big_view = 3" "v_row_cnt big_view = 268435456"
    "v_ds_cnt big_view = 134217729" "v_header_size big_view = 41875931680"
    "v_prev_row_cnts big_view = 0" "v_rrd_data big_view = big_bf"
    by (simp_all add: big_view_def big_bf_def RRDRRA_def Let_def)
  have row: "real_row_idx big_view 134217725 = 134217729"
    by (simp add: real_row_idx_def big)
  have off: "calc_idx big_view 134217725 1 = Inr 144115190223339520"
    by (simp add: calc_idx_def big row) (simp add: big_view_def js_eval)
  have base: "v_base_rrd_db_idx big_view = 41875931680"
    by (simp add: big_view_def js_eval)
  have byte: "js_add 41875931680 144115190223339520 = 144115232099271200"
    by (simp add: js_eval)
  show ?thesis
    by (simp add: getEl_def getElFast_def off base byte big getNrRows_def rra_getNrDSs_def)
qed

text \<open>
  Claim C8, amended: for every valid pair, \<open>getEl\<close> and \<open>getElFast\<close> read at the same byte
  offset and differ only in the read applied there (\<open>getDoubleAt\<close> or \<open>getFastDoubleAt\<close>).
  When the head row is below the row count and the sample area of the archive ends at
  or below byte \<open>2 ^ 53\<close>, that offset is
  \<open>header_size + prev_row_cnts * row_size + row_size * physicalRow + ds_idx * 8\<close> with
  \<open>row_size = ds_cnt * 8\<close> and \<open>physicalRow = (row_idx + headRow + 1) mod rowCount\<close>.
\<close>

theorem getEl_getElFast_same_offset:
  fixes bf al d p hs rc prev dc st row_idx ds_idx
  defines "v \<equiv> RRDRRA bf al d p hs rc prev dc st"
  defines "head \<equiv> uint (getLongAt bf p)"
  defines "off \<equiv> js_add (v_base_rrd_db_idx v)
                    (js_add (js_mul (v_row_size v) (real_row_idx v row_idx)) (js_mul ds_idx 8))"
  assumes "0 \<le> row_idx" and "row_idx < rc" and "0 \<le> ds_idx" and "ds_idx < dc"
  shows "getEl v row_idx ds_idx = Inr (getDoubleAt bf off) \<and>
         getElFast v row_idx ds_idx = Inr (getFastDoubleAt bf off) \<and>
         (head < rc \<and> 0 \<le> hs \<and> 0 \<le> prev \<and> hs + prev * (dc * 8) + dc * 8 * rc \<le> 2 ^ 53 \<longrightarrow>
            off = hs + prev * (dc * 8) + dc * 8 * ((row_idx + head + 1) mod rc) + ds_idx * 8)"
proof -
  have vf: "v_row_cnt v = rc" "v_ds_cnt v = dc" "v_rrd_data v = bf"
    by (simp_all add: v_def)
  have idx: "calc_idx v row_idx ds_idx
      = Inr (js_add (js_mul (v_row_size v) (real_row_idx v row_idx)) (js_mul ds_idx 8))"
    using assms(4-7) by (intro calc_idx_valid) (simp_all add: vf)
  have both: "getEl v row_idx ds_idx = Inr (getDoubleAt bf off)"
    "getElFast v row_idx ds_idx = Inr (getFastDoubleAt bf off)"
    by (simp_all only: getEl_def getElFast_def idx sum.case vf off_def)
  have formula: "off = hs + prev * (dc * 8) + dc * 8 * ((row_idx + head + 1) mod rc) + ds_idx * 8"
    if "head < rc" "0 \<le> hs" "0 \<le> prev" "hs + prev * (dc * 8) + dc * 8 * rc \<le> 2 ^ 53"
  proof -
    have "calc_idx v row_idx ds_idx
        = Inr (dc * 8 * ((row_idx + head + 1) mod rc) + ds_idx * 8)"
      unfolding v_def head_def
      using assms(4-7) that(1) [unfolded head_def] that(2-4) by (rule sample_offset_exact(1))
    with idx have "js_add (js_mul (v_row_size v) (real_row_idx v row_idx)) (js_mul ds_idx 8)
        = dc * 8 * ((row_idx + head + 1) mod rc) + ds_idx * 8"
      by simp
    moreover have "js_add (v_base_rrd_db_idx v)
          (dc * 8 * ((row_idx + head + 1) mod rc) + ds_idx * 8)
        = hs + prev * (dc * 8) + dc * 8 * ((row_idx + head + 1) mod rc) + ds_idx * 8"
      unfolding v_def head_def
      using assms(4-7) that(1) [unfolded head_def] that(2-4) by (rule sample_offset_exact(2))
    ultimately show ?thesis by (simp only: off_def)
  qed
  from both formula show ?thesis by blast
qed

text \<open>
  In the sample archive, row 9 (physical row 3) of data source 1 is at byte
  856 + 16 * 3 + 8 = 912 and row 0 (physical row 4) at byte 856 + 16 * 4 + 8 = 928, for
  both reads.
\<close>

theorem getEl_getElFast_same_offset_witness:
  "getEl sample_view 9 1 = Inr (getDoubleAt sample_bf 912) \<and>
   getElFast sample_view 9 1 = Inr (getFastDoubleAt sample_bf 912) \<and>
   getEl sample_view 0 1 = Inr (getDoubleAt sample_bf 928) \<and>
   getElFast sample_view 0 1 = Inr (getFastDoubleAt sample_bf 928)"
proof -
  have head: "uint (getLongAt sample_bf 852) = 3"
    by (simp add: sample_bf_def)
  have ok: "(0::int) \<le> 9" "(9::int) < 10" "(0::int) \<le> 1" "(1::int) < 2" "(0::int) \<le> 0"
    "(0::int) < 10"
    by simp_all
  have small: "uint (getLongAt sample_bf 852) < 10 \<and> (0::int) \<le> 856 \<and> (0::int) \<le> 0 \<and>
      856 + 0 * (2 * 8) + 2 * 8 * 10 \<le> (2::int) ^ 53"
    by (simp add: head)
  show ?thesis
    using getEl_getElFast_same_offset [OF ok(1) ok(2) ok(3) ok(4),
          where bf = sample_bf and al = 32 and d = 352 and p = 852
          and hs = 856 and prev = 0 and st = 300]
      getEl_getElFast_same_offset [OF ok(5) ok(6) ok(3) ok(4),
          where bf = sample_bf and al = 32 and d = 352 and p = 852
          and hs = 856 and prev = 0 and st = 300]
      small
    unfolding sample_view_def [symmetric] by (simp add: head)
qed

section \<open>Header construction\<close>

text \<open>
  The sample archive without the alignment sentinel has the magic marker and the
  version 0003, and its header construction fails.
\<close>

theorem header_construction_counterexample:
  "getCStringAt noplatform_bf 0 4 = ''RRD'' \<and> getCStringAt noplatform_bf 4 5 = ''0003'' \<and>
   RRDHeader noplatform_bf = Inl (InvalidRRD ''Unsupported platform.'')"
  by (simp add: RRDHeader_def validate_rrd_def Let_def js_eq_def is_nan_def is_zero_def
      sentinel_def noplatform_bf_def sample_bf_def)

text \<open>
  Claim C4, amended: header construction reads the 4 bytes at offset 0 and fails with
  "Wrong magic id." unless they read as the marker RRD; it reads the 5-byte version
  string at offset 4 and fails with "Unsupported RRD version" for any string other than
  0003 and 0004; it succeeds exactly when the marker is right, the version is 0003 or
  0004 and the alignment sentinel is found at offset 12 or 16. A header that is returned
  has gone through the whole initialisation, and a failure of the header is a failure
  of the file object.
\<close>

theorem header_construction:
  fixes bf
  defines "magic \<equiv> getCStringAt bf 0 4"
  defines "ver \<equiv> getCStringAt bf 4 5"
  shows "(magic \<noteq> ''RRD'' \<longrightarrow> RRDHeader bf = Inl (InvalidRRD ''Wrong magic id.'')) \<and>
         (magic = ''RRD'' \<and> ver \<noteq> ''0003'' \<and> ver \<noteq> ''0004'' \<longrightarrow>
            RRDHeader bf = Inl (InvalidRRD (''Unsupported RRD version '' @ ver @ ''.''))) \<and>
         ((\<exists>h. RRDHeader bf = Inr h) \<longleftrightarrow>
            magic = ''RRD'' \<and> (ver = ''0003'' \<or> ver = ''0004'') \<and>
            (js_eq (getDoubleAt bf 12) sentinel \<or> js_eq (getDoubleAt bf 16) sentinel)) \<and>
         (\<forall>h. RRDHeader bf = Inr h \<longrightarrow>
            rrd_version h = ver \<and> (rrd_align h = 32 \<or> rrd_align h = 64) \<and>
            (\<exists>hv. validate_rrd (new_header bf) = Inr hv \<and> h = calc_idxs (load_header hv))) \<and>
         (\<forall>e. RRDHeader bf = Inl e \<longrightarrow> RRDFile bf = Inl e)"
proof -
  have bad_magic: "RRDHeader bf = Inl (InvalidRRD ''Wrong magic id.'')" if "magic \<noteq> ''RRD''"
    using that validate_rrd_magic [of "new_header bf"] by (simp add: RRDHeader_def magic_def)
  have bad_ver: "RRDHeader bf = Inl (InvalidRRD (''Unsupported RRD version '' @ ver @ ''.''))"
    if "magic = ''RRD''" "ver \<noteq> ''0003''" "ver \<noteq> ''0004''"
    using that validate_rrd_version [of "new_header bf"]
    by (simp add: RRDHeader_def magic_def ver_def)
  have good: "validate_rrd (new_header bf) =
     (if js_eq (getDoubleAt bf 12) sentinel then
        Inr ((new_header bf)\<lparr>rrd_version := ver, rrd_align := 32\<rparr>)
      else if js_eq (getDoubleAt bf 16) sentinel then
        Inr ((new_header bf)\<lparr>rrd_version := ver, rrd_align := 64\<rparr>)
      else Inl (InvalidRRD ''Unsupported platform.''))"
    if "magic = ''RRD''" "ver = ''0003'' \<or> ver = ''0004''"
    using that validate_rrd_align [of "new_header bf"] by (simp add: magic_def ver_def)
  have succeeds: "(\<exists>h. RRDHeader bf = Inr h) \<longleftrightarrow>
            magic = ''RRD'' \<and> (ver = ''0003'' \<or> ver = ''0004'') \<and>
            (js_eq (getDoubleAt bf 12) sentinel \<or> js_eq (getDoubleAt bf 16) sentinel)"
  proof (cases "magic = ''RRD''")
    case False
    then show ?thesis using bad_magic by simp
  next
    case True
    show ?thesis
    proof (cases "ver = ''0003'' \<or> ver = ''0004''")
      case False
      then show ?thesis using bad_ver True by simp
    next
      case ok: True
      show ?thesis using True ok by (simp add: RRDHeader_def good [OF True ok])
    qed
  qed
  have whole: "rrd_version h = ver \<and> (rrd_align h = 32 \<or> rrd_align h = 64) \<and>
            (\<exists>hv. validate_rrd (new_header bf) = Inr hv \<and> h = calc_idxs (load_header hv))"
    if h: "RRDHeader bf = Inr h" for h
  proof -
    from h succeeds have ok: "magic = ''RRD''" "ver = ''0003'' \<or> ver = ''0004''"
      by blast+
    from h obtain hv where hv: "validate_rrd (new_header bf) = Inr hv"
      "h = calc_idxs (load_header hv)"
      by (auto simp: RRDHeader_Inr)
    from hv(1) have "rrd_version hv = ver \<and> (rrd_align hv = 32 \<or> rrd_align hv = 64)"
      unfolding good [OF ok] by (auto split: if_splits)
    with hv show ?thesis by simp
  qed
  have fatal: "RRDFile bf = Inl e" if "RRDHeader bf = Inl e" for e
    using that by (simp add: RRDFile_def)
  from bad_magic bad_ver succeeds whole fatal show ?thesis by blast
qed

text \<open>
  The four sample sources: a good archive, a wrong marker, an old version and a missing
  sentinel.
\<close>

theorem header_construction_witness:
  "(\<exists>h. RRDHeader sample_bf = Inr h) \<and>
   RRDHeader nomagic_bf = Inl (InvalidRRD ''Wrong magic id.'') \<and>
   RRDFile nomagic_bf = Inl (InvalidRRD ''Wrong magic id.'') \<and>
   RRDHeader oldversion_bf = Inl (InvalidRRD ''Unsupported RRD version 0001.'') \<and>
   \<not> (\<exists>h. RRDHeader noplatform_bf = Inr h)"
proof -
  have good: "getCStringAt sample_bf 0 4 = ''RRD''" "getCStringAt sample_bf 4 5 = ''0003''"
    "js_eq (getDoubleAt sample_bf 12) sentinel"
    by (simp_all add: sample_bf_def js_eq_sentinel)
  have nomagic: "getCStringAt nomagic_bf 0 4 \<noteq> ''RRD''"
    by (simp add: nomagic_bf_def)
  have old: "getCStringAt oldversion_bf 0 4 = ''RRD''" "getCStringAt oldversion_bf 4 5 = ''0001''"
    by (simp_all add: oldversion_bf_def sample_bf_def)
  have noplatform: "\<not> js_eq (getDoubleAt noplatform_bf 12) sentinel"
    "\<not> js_eq (getDoubleAt noplatform_bf 16) sentinel"
    by (simp_all add: noplatform_bf_def js_eq_def is_nan_def is_zero_def sentinel_def)
  show ?thesis
    using header_construction [of sample_bf] header_construction [of nomagic_bf]
      header_construction [of oldversion_bf] header_construction [of noplatform_bf]
      good nomagic old noplatform
    by simp
qed

text \<open>
  Claim C5: with a valid marker and version, the double at offset 12 equal to the
  sentinel gives 32-bit alignment; otherwise the double at offset 16 equal to the
  sentinel gives 64-bit alignment; otherwise construction fails with
  "Unsupported platform.".
\<close>

theorem alignment_detection:
  assumes "getCStringAt bf 0 4 = ''RRD''"
    and "getCStringAt bf 4 5 = ''0003'' \<or> getCStringAt bf 4 5 = ''0004''"
  shows "(js_eq (getDoubleAt bf 12) sentinel \<longrightarrow>
            (\<exists>h. RRDHeader bf = Inr h \<and> rrd_align h = 32)) \<and>
         (\<not> js_eq (getDoubleAt bf 12) sentinel \<and> js_eq (getDoubleAt bf 16) sentinel \<longrightarrow>
            (\<exists>h. RRDHeader bf = Inr h \<and> rrd_align h = 64)) \<and>
         (\<not> js_eq (getDoubleAt bf 12) sentinel \<and> \<not> js_eq (getDoubleAt bf 16) sentinel \<longrightarrow>
            RRDHeader bf = Inl (InvalidRRD ''Unsupported platform.''))"
proof -
  have v: "validate_rrd (new_header bf) =
     (if js_eq (getDoubleAt bf 12) sentinel then
        Inr ((new_header bf)\<lparr>rrd_version := getCStringAt bf 4 5, rrd_align := 32\<rparr>)
      else if js_eq (getDoubleAt bf 16) sentinel then
        Inr ((new_header bf)\<lparr>rrd_version := getCStringAt bf 4 5, rrd_align := 64\<rparr>)
      else Inl (InvalidRRD ''Unsupported platform.''))"
    using validate_rrd_align [of "new_header bf"] assms by simp
  show ?thesis
    by (simp add: RRDHeader_def v)
qed

text \<open>
  The 32-bit sample, the 64-bit sample and the sample without a sentinel.
\<close>

theorem alignment_detection_witness:
  "(\<exists>h. RRDHeader sample_bf = Inr h \<and> rrd_align h = 32) \<and>
   (\<exists>h. RRDHeader sample64_bf = Inr h \<and> rrd_align h = 64) \<and>
   RRDHeader noplatform_bf = Inl (InvalidRRD ''Unsupported platform.'')"
proof -
  have m: "getCStringAt sample_bf 0 4 = ''RRD''" "getCStringAt sample64_bf 0 4 = ''RRD''"
    "getCStringAt noplatform_bf 0 4 = ''RRD''"
    by (simp_all add: sample_bf_def sample64_bf_def noplatform_bf_def)
  have ver: "getCStringAt sample_bf 4 5 = ''0003'' \<or> getCStringAt sample_bf 4 5 = ''0004''"
    "getCStringAt sample64_bf 4 5 = ''0003'' \<or> getCStringAt sample64_bf 4 5 = ''0004''"
    "getCStringAt noplatform_bf 4 5 = ''0003'' \<or> getCStringAt noplatform_bf 4 5 = ''0004''"
    by (simp_all add: sample_bf_def sample64_bf_def noplatform_bf_def)
  have s: "js_eq (getDoubleAt sample_bf 12) sentinel"
    "\<not> js_eq (getDoubleAt sample64_bf 12) sentinel" "js_eq (getDoubleAt sample64_bf 16) sentinel"
    "\<not> js_eq (getDoubleAt noplatform_bf 12) sentinel"
    "\<not> js_eq (getDoubleAt noplatform_bf 16) sentinel"
    by (simp_all add: js_eq_def is_nan_def is_zero_def sentinel_def
        sample_bf_def sample64_bf_def noplatform_bf_def)
  show ?thesis
    using alignment_detection [OF m(1) ver(1)] alignment_detection [OF m(2) ver(2)]
      alignment_detection [OF m(3) ver(3)] s
    by simp
qed

text \<open>
  With \<open>2 ^ 32 - 1\<close> data sources and as many archives the product of the scratch size
  80 and the two counts is beyond \<open>2 ^ 53\<close>: the archive pointer offset is not the start
  of the section before plus that product, and the header size is not the archive
  pointer offset plus 4 for each archive.
\<close>

theorem section_offsets_counterexample:
  "RRDHeader maxcount_bf = Inr maxcount_header \<and>
   ds_cnt maxcount_header = 4294967295 \<and> rra_cnt maxcount_header = 4294967295 \<and>
   cdp_prep_idx maxcount_header = 1460288880420 \<and>
   rra_ptr_idx maxcount_header = 1475739526669858242560 \<and>
   cdp_prep_idx maxcount_header + 80 * (ds_cnt maxcount_header * rra_cnt maxcount_header)
     = 1475739526669858242420 \<and>
   header_size maxcount_header = 1475739526687038111744 \<and>
   rra_ptr_idx maxcount_header + 4 * rra_cnt maxcount_header = 1475739526687038111740"
proof -
  note layout = layout_32 [where bf = maxcount_bf and ver = "''0003''", folded maxcount_header_def]
  have cnt: "ds_cnt maxcount_header = 4294967295" "rra_cnt maxcount_header = 4294967295"
    "cdp_prep_idx maxcount_header = 1460288880420"
    using layout by (simp_all add: maxcount_bf_def)
  have ptr: "rra_ptr_idx maxcount_header = 1475739526669858242560"
    using layout(14) cnt by (simp add: maxcount_bf_def js_eval)
  have size: "header_size maxcount_header = 1475739526687038111744"
    using layout(16) ptr by (simp add: maxcount_bf_def js_eval)
  show ?thesis
    by (simp add: sample_RRDFile cnt ptr size)
qed

text \<open>
  Claim C6, amended: for all non-negative counts of data sources and archives whose
  header size is at most \<open>2 ^ 53\<close>, \<open>calc_idxs\<close> starts the data source definitions at the
  top header size (112 or 128) and each later section at the start of the one before
  plus its element size times its element count: 120 per data source definition, 108 or
  120 per archive definition, one live head of 8 or 16, 112 per data source of scratch,
  80 per pair of data source and archive, 4 or 8 per archive pointer. The offsets never
  decrease and end at the header size.
\<close>

theorem section_offsets:
  fixes h0
  defines "h \<equiv> calc_idxs h0"
  assumes "top_header_size h0 = (if rrd_align h0 = 32 then 112 else 128)"
    and "0 \<le> ds_cnt h0" and "0 \<le> rra_cnt h0"
    and "(if rrd_align h0 = 32 then 112 else 128) + 120 * ds_cnt h0
           + (if rrd_align h0 = 32 then 108 else 120) * rra_cnt h0
           + (if rrd_align h0 = 32 then 8 else 16) + 112 * ds_cnt h0
           + 80 * (ds_cnt h0 * rra_cnt h0)
           + (if rrd_align h0 = 32 then 4 else 8) * rra_cnt h0 \<le> 2 ^ 53"
  shows "ds_def_idx h = (if rrd_align h0 = 32 then 112 else 128) \<and>
         rra_def_idx h = ds_def_idx h + 120 * ds_cnt h0 \<and>
         live_head_idx h = rra_def_idx h + (if rrd_align h0 = 32 then 108 else 120) * rra_cnt h0 \<and>
         pdp_prep_idx h = live_head_idx h + (if rrd_align h0 = 32 then 8 else 16) \<and>
         cdp_prep_idx h = pdp_prep_idx h + 112 * ds_cnt h0 \<and>
         rra_ptr_idx h = cdp_prep_idx h + 80 * (ds_cnt h0 * rra_cnt h0) \<and>
         header_size h = rra_ptr_idx h + (if rrd_align h0 = 32 then 4 else 8) * rra_cnt h0 \<and>
         ds_def_idx h \<le> rra_def_idx h \<and> rra_def_idx h \<le> live_head_idx h \<and>
         live_head_idx h \<le> pdp_prep_idx h \<and> pdp_prep_idx h \<le> cdp_prep_idx h \<and>
         cdp_prep_idx h \<le> rra_ptr_idx h \<and> rra_ptr_idx h \<le> header_size h"
proof -
  define D where "D = ds_cnt h0"
  define R where "R = rra_cnt h0"
  define e where "e = (if rrd_align h0 = 32 then 4 else 8 :: int)"
  define c where "c = cdp_prep_idx h"
  have DR: "0 \<le> D" "0 \<le> R"
    using assms(3,4) by (simp_all add: D_def R_def)
  have eqs: "ds_def_idx h = (if rrd_align h0 = 32 then 112 else 128)"
    "rra_def_idx h = ds_def_idx h + 120 * D"
    "live_head_idx h = rra_def_idx h + (if rrd_align h0 = 32 then 108 else 120) * R"
    "pdp_prep_idx h = live_head_idx h + (if rrd_align h0 = 32 then 8 else 16)"
    "cdp_prep_idx h = pdp_prep_idx h + 112 * D"
    unfolding h_def D_def R_def using assms(2) calc_idxs_offsets(1-5) [of h0] by simp_all
  have c: "c = (if rrd_align h0 = 32 then 112 else 128) + 120 * D
      + (if rrd_align h0 = 32 then 108 else 120) * R
      + (if rrd_align h0 = 32 then 8 else 16) + 112 * D"
    by (simp add: c_def eqs)
  have e: "0 \<le> e" by (simp add: e_def)
  have low: "80 * D \<le> c"
    using DR by (simp add: c)
  have small: "c + 80 * (D * R) + e * R \<le> 2 ^ 53"
    using assms(5) by (simp add: c e_def D_def R_def)
  have exact: "js_add c (js_mul (js_mul 80 D) R) = c + 80 * (D * R)"
    "js_add (c + 80 * (D * R)) (js_mul e R) = c + 80 * (D * R) + e * R"
    using DR low e small by (rule scratch_sections_exact)+
  have ptr: "rra_ptr_idx h = cdp_prep_idx h + 80 * (D * R)"
    using calc_idxs_offsets(6) [of h0] exact(1) by (simp add: h_def c_def D_def R_def)
  have size: "header_size h = rra_ptr_idx h + e * R"
    using calc_idxs_offsets(7) [of h0] exact(2) ptr
    by (simp add: h_def c_def D_def R_def e_def)
  have prod: "0 \<le> D * R" "0 \<le> e * R"
    using DR e by simp_all
  have mono: "ds_def_idx h \<le> rra_def_idx h" "rra_def_idx h \<le> live_head_idx h"
    "live_head_idx h \<le> pdp_prep_idx h" "pdp_prep_idx h \<le> cdp_prep_idx h"
    "cdp_prep_idx h \<le> rra_ptr_idx h" "rra_ptr_idx h \<le> header_size h"
    using DR prod by (simp_all add: eqs(2-) ptr size)
  from eqs ptr size mono show ?thesis
    by (simp add: D_def R_def e_def)
qed

text \<open>The offsets of the 32-bit sample archive.\<close>

theorem section_offsets_witness:
  "ds_def_idx sample_header = 112 \<and> rra_def_idx sample_header = 352 \<and>
   live_head_idx sample_header = 460 \<and> pdp_prep_idx sample_header = 468 \<and>
   cdp_prep_idx sample_header = 692 \<and> rra_ptr_idx sample_header = 852 \<and>
   header_size sample_header = 856"
proof -
  define h0 where
    "h0 = load_header ((new_header sample_bf)\<lparr>rrd_version := ''0003'', rrd_align := 32\<rparr>)"
  have al: "rrd_align h0 = 32" and cnt: "ds_cnt h0 = 2" "rra_cnt h0 = 1"
    by (simp_all add: h0_def load_header_def sample_bf_def)
  have top: "top_header_size h0 = (if rrd_align h0 = 32 then 112 else 128)"
    by (simp add: h0_def)
  have nonneg: "0 \<le> ds_cnt h0" "0 \<le> rra_cnt h0"
    by (simp_all add: cnt)
  have small: "(if rrd_align h0 = 32 then 112 else 128) + 120 * ds_cnt h0
           + (if rrd_align h0 = 32 then 108 else 120) * rra_cnt h0
           + (if rrd_align h0 = 32 then 8 else 16) + 112 * ds_cnt h0
           + 80 * (ds_cnt h0 * rra_cnt h0)
           + (if rrd_align h0 = 32 then 4 else 8) * rra_cnt h0 \<le> 2 ^ 53"
    by (simp add: al cnt)
  have h: "sample_header = calc_idxs h0"
    by (simp add: sample_header_def h0_def)
  show ?thesis
    using section_offsets [OF top nonneg small] by (simp add: h al cnt)
qed

section \<open>Row counts and lookups\<close>




text \<open>
  Claim C9: on a file object built by \<open>RRDFile\<close>, the lookup of archive \<open>i\<close> returns
  the view made of the header's offsets for that index (archive definition at
  \<open>rra_def_idx + i * rra_def_el_size\<close>, archive pointer at
  \<open>rra_ptr_idx + i * rra_ptr_el_size\<close>, samples from \<open>header_size\<close>) with the row count
  and the prefix sum the arrays hold for \<open>i\<close>, and the lookup of data source \<open>j\<close>
  returns the view at \<open>ds_def_idx + 120 * j\<close>. Each lookup returns that same view
  whether it is made first, after the other lookup, or a second time, and the file
  object with its header is the same after every lookup.
\<close>

theorem lookups_order_independent:
  fixes bf f i j
  defines "h \<equiv> rrd_header f"
  defines "d \<equiv> RRDDS bf (ds_def_idx h + 120 * j)"
  assumes "RRDFile bf = Inr f" and "0 \<le> i" and "i < getNrRRAs f"
    and "0 \<le> j" and "j < getNrDSs h"
  shows "\<exists>row_cnt prev_row_cnts.
           rra_def_row_cnts h i = Some row_cnt \<and>
           rra_def_row_cnt_sums h i = Some prev_row_cnts \<and>
           (let a = RRDRRA bf (rrd_align h) (rra_def_idx h + i * rra_def_el_size h)
                      (js_add (rra_ptr_idx h) (js_mul i (rra_ptr_el_size h)))
                      (header_size h) row_cnt prev_row_cnts (ds_cnt h) (pdp_step h)
            in call_getRRA f i = (Inr a, f) \<and> call_getDS f j = (Inr d, f) \<and>
               call_getDS (snd (call_getRRA f i)) j = (Inr d, f) \<and>
               call_getRRA (snd (call_getDS f j)) i = (Inr a, f) \<and>
               call_getRRA (snd (call_getRRA f i)) i = (Inr a, f) \<and>
               call_getDS (snd (call_getDS f j)) j = (Inr d, f))"
proof -
  from assms(3) obtain hv where hv: "validate_rrd (new_header bf) = Inr hv"
    and f: "f = \<lparr>f_rrd_data = bf, rrd_header = load_row_cnts (calc_idxs (load_header hv))\<rparr>"
    by (rule RRDFile_Inr)
  define h0 where "h0 = calc_idxs (load_header hv)"
  have f': "f = \<lparr>f_rrd_data = bf, rrd_header = load_row_cnts h0\<rparr>"
    by (simp add: f h0_def)
  have h: "h = load_row_cnts h0"
    by (simp add: h_def f')
  have keep: "rrd_align h = rrd_align h0" "rra_def_idx h = rra_def_idx h0"
    "rra_def_el_size h = rra_def_el_size h0" "rra_ptr_idx h = rra_ptr_idx h0"
    "rra_ptr_el_size h = rra_ptr_el_size h0" "header_size h = header_size h0"
    "ds_cnt h = ds_cnt h0" "pdp_step h = pdp_step h0" "rra_cnt h = rra_cnt h0"
    "ds_def_idx h = ds_def_idx h0" "ds_el_size h = ds_el_size h0" "rrd_data h = rrd_data h0"
    by (simp_all add: h load_row_cnts_keeps)
  have data: "rrd_data h0 = bf" and el: "ds_el_size h0 = 120"
    using validate_rrd_Inr(1) [OF hv] by (simp_all add: h0_def calc_idxs_sizes)
  have range: "0 \<le> i" "i < rra_cnt h0"
    using assms(4,5) by (simp_all add: getNrRRAs_def f' load_row_cnts_keeps)
  define a where "a = RRDRRA bf (rrd_align h) (rra_def_idx h + i * rra_def_el_size h)
      (js_add (rra_ptr_idx h) (js_mul i (rra_ptr_el_size h)))
      (header_size h) (row_cnt_at h0 i) (js_rows_before h0 (nat i)) (ds_cnt h) (pdp_step h)"
  have arr: "rra_def_row_cnts h i = Some (row_cnt_at h0 i)"
    "rra_def_row_cnt_sums h i = Some (js_rows_before h0 (nat i))"
    using range by (simp_all add: h load_row_cnts_cnts load_row_cnts_sums)
  have rra: "getRRA f i = Inr a"
    unfolding f' a_def keep by (rule getRRA_built [OF range])
  have ds: "file_getDS f j = Inr d"
    using assms(6,7)
    by (simp add: file_getDS_def h_def [symmetric] getDS_def getNrDSs_def d_def keep data el)
  have calls: "call_getRRA f i = (Inr a, f)" "call_getDS f j = (Inr d, f)"
    by (simp_all add: call_getRRA_def call_getDS_def rra ds)
  then have "call_getDS (snd (call_getRRA f i)) j = (Inr d, f)"
    "call_getRRA (snd (call_getDS f j)) i = (Inr a, f)"
    "call_getRRA (snd (call_getRRA f i)) i = (Inr a, f)"
    "call_getDS (snd (call_getDS f j)) j = (Inr d, f)"
    by simp_all
  with calls arr show ?thesis
    unfolding a_def Let_def by blast
qed

text \<open>
  Archive 1 and data source 0 of the archive with three round robin archives: the
  archive view has its definition at 340, its pointer at 920, 20 rows and 10 rows before
  it; the data source view is at 112.
\<close>

theorem lookups_order_independent_witness:
  "call_getRRA three_rra_file 1
     = (Inr (RRDRRA three_rra_bf 32 340 920 928 20 10 1 300), three_rra_file) \<and>
   call_getDS three_rra_file 0 = (Inr (RRDDS three_rra_bf 112), three_rra_file) \<and>
   call_getDS (snd (call_getRRA three_rra_file 1)) 0
     = (Inr (RRDDS three_rra_bf 112), three_rra_file) \<and>
   call_getRRA (snd (call_getDS three_rra_file 0)) 1
     = (Inr (RRDRRA three_rra_bf 32 340 920 928 20 10 1 300), three_rra_file)"
proof -
  define h where "h = rrd_header three_rra_file"
  have fields: "rrd_align h = 32" "rra_def_idx h = 232" "rra_def_el_size h = 108"
    "rra_ptr_idx h = 916" "rra_ptr_el_size h = 4" "header_size h = 928" "ds_cnt h = 1"
    "pdp_step h = 300" "rra_cnt h = 3" "ds_def_idx h = 112"
    by (simp_all add: h_def three_rra_file_def load_row_cnts_keeps three_rra_fields)
  have arr: "rra_def_row_cnts h 1 = Some 20" "rra_def_row_cnt_sums h 1 = Some 10"
    by (simp_all add: h_def three_rra_file_def load_row_cnts_cnts load_row_cnts_sums
        three_rra_fields three_rra_rows js_exact)
  have built: "RRDFile three_rra_bf = Inr three_rra_file"
    by (rule sample_RRDFile)
  have range: "(0::int) \<le> 1" "1 < getNrRRAs three_rra_file" "(0::int) \<le> 0"
    "0 < getNrDSs (rrd_header three_rra_file)"
    using fields by (simp_all add: getNrRRAs_def getNrDSs_def h_def)
  show ?thesis
    using lookups_order_independent [OF built range]
    unfolding h_def [symmetric] by (auto simp: fields arr js_exact Let_def)
qed

end
